theory Spec2Isabelle
  imports Main "HOL-Library.Multiset" "HOL-Library.Char_ord" "HOL-Library.List_Lexorder"
    "HOL-Library.Product_Lexorder"
begin

section \<open>Data model\<close>

text \<open>
  A Piece instance.  The class itself lives in the card catalogue, which the engine only
  consumes; the engine reads the attributes below.  \<open>uid\<close> stands for the object identity
  (Python's \<open>is\<close>), \<open>name\<close> for \<open>repr(piece)\<close>.
\<close>

record piece =
  uid :: nat
  name :: string
  cost :: int
  is_action :: bool
  is_treasure :: bool
  is_victory :: bool
  is_province :: bool
  total_order_index :: nat

text \<open>An Actor: five zones (the top of a zone is the end of the list, as \<open>pop()\<close>
  and \<open>append\<close> have it), the two scratch lists and \<open>repr(actor)\<close>.\<close>

record player =
  HAND :: "piece list"
  DECK :: "piece list"
  DISCARD :: "piece list"
  PLAY :: "piece list"
  ASIDE :: "piece list"
  include_list :: "piece list"
  exclude_list :: "piece list"
  actor_repr :: string

record state =
  players :: "player list"
  piles :: "piece list list"
  TRASH :: "piece list"
  n_action :: int
  n_buy :: int
  n_coin :: int
  n_silver_played_this_turn :: int
  merchant_silver_bonus :: int
  need_action_phase :: bool
  need_treasure_phase :: bool
  need_buy_phase :: bool
  n_empty_piles :: int
  province_pile_empty :: bool
  current_player :: nat

text \<open>The phase constants of \<open>evolvedominion.params\<close>; \<open>OTHER_PHASE\<close> is any other value.\<close>

datatype phase = ACTION_PHASE | TREASURE_PHASE | BUY_PHASE | OTHER_PHASE string

text \<open>The exceptions a call can raise.\<close>

datatype error = NameError string | ValueError | IndexError | TypeError | AttributeError | KeyError

text \<open>
  The source passes list objects around (\<open>source=actor.DECK\<close>) and mutates them in
  place; a zone reference names the list, an actor is its position in \<open>state.players\<close>.
\<close>

datatype zone = Hand nat | Deck nat | Discard nat | Play nat | Aside nat | Trash | Pile nat

fun get_zone :: "zone \<Rightarrow> state \<Rightarrow> piece list" where
  "get_zone (Hand a) s = HAND (players s ! a)"
| "get_zone (Deck a) s = DECK (players s ! a)"
| "get_zone (Discard a) s = DISCARD (players s ! a)"
| "get_zone (Play a) s = PLAY (players s ! a)"
| "get_zone (Aside a) s = ASIDE (players s ! a)"
| "get_zone Trash s = TRASH s"
| "get_zone (Pile i) s = piles s ! i"

definition upd_player :: "nat \<Rightarrow> (player \<Rightarrow> player) \<Rightarrow> state \<Rightarrow> state" where
  "upd_player a f s = s\<lparr>players := (players s)[a := f (players s ! a)]\<rparr>"

fun set_zone :: "zone \<Rightarrow> piece list \<Rightarrow> state \<Rightarrow> state" where
  "set_zone (Hand a) xs s = upd_player a (\<lambda>p. p\<lparr>HAND := xs\<rparr>) s"
| "set_zone (Deck a) xs s = upd_player a (\<lambda>p. p\<lparr>DECK := xs\<rparr>) s"
| "set_zone (Discard a) xs s = upd_player a (\<lambda>p. p\<lparr>DISCARD := xs\<rparr>) s"
| "set_zone (Play a) xs s = upd_player a (\<lambda>p. p\<lparr>PLAY := xs\<rparr>) s"
| "set_zone (Aside a) xs s = upd_player a (\<lambda>p. p\<lparr>ASIDE := xs\<rparr>) s"
| "set_zone Trash xs s = s\<lparr>TRASH := xs\<rparr>"
| "set_zone (Pile i) xs s = s\<lparr>piles := (piles s)[i := xs]\<rparr>"

text \<open>A zone reference is valid when the list it names exists.\<close>

fun valid_zone :: "state \<Rightarrow> zone \<Rightarrow> bool" where
  "valid_zone s (Hand a) = (a < length (players s))"
| "valid_zone s (Deck a) = (a < length (players s))"
| "valid_zone s (Discard a) = (a < length (players s))"
| "valid_zone s (Play a) = (a < length (players s))"
| "valid_zone s (Aside a) = (a < length (players s))"
| "valid_zone s Trash = True"
| "valid_zone s (Pile i) = (i < length (piles s))"

section \<open>State mutation primitives\<close>

text \<open>\<open>end_phase(state, actor, phase)\<close>\<close>

definition end_phase :: "nat \<Rightarrow> phase \<Rightarrow> state \<Rightarrow> state" where
  "end_phase actor ph s =
     (if ph = ACTION_PHASE then s\<lparr>need_action_phase := False, n_action := 0\<rparr>
      else if ph = TREASURE_PHASE then s\<lparr>need_treasure_phase := False\<rparr>
      else if ph = BUY_PHASE then s\<lparr>need_buy_phase := False, n_buy := 0\<rparr>
      else s)"

text \<open>Sequencing of calls that may raise: the first exception ends the run.\<close>

definition and_then :: "error + 'a \<Rightarrow> ('a \<Rightarrow> error + 'b) \<Rightarrow> error + 'b" where
  "and_then r f = (case r of Inl e \<Rightarrow> Inl e | Inr x \<Rightarrow> f x)"

text \<open>
  \<open>source.index(piece)\<close>: the position of the first element that is the object itself or
  compares equal to it.  \<open>Piece.__eq__\<close> belongs to the card catalogue, so the comparison
  \<open>eq\<close> is a parameter; the identity test comes first, as in \<open>list.index\<close>.
\<close>

fun index_of :: "(piece \<Rightarrow> piece \<Rightarrow> bool) \<Rightarrow> piece \<Rightarrow> piece list \<Rightarrow> nat option" where
  "index_of eq x [] = None"
| "index_of eq x (y # ys) =
     (if uid y = uid x \<or> eq y x then Some 0 else map_option Suc (index_of eq x ys))"

text \<open>\<open>destination.append(source.pop(source.index(piece)))\<close>; \<open>index\<close> raises
  ValueError when nothing matches.\<close>

definition transfer_piece ::
  "(piece \<Rightarrow> piece \<Rightarrow> bool) \<Rightarrow> piece \<Rightarrow> zone \<Rightarrow> zone \<Rightarrow> state \<Rightarrow> error + state" where
  "transfer_piece eq pc destination source s =
     (case index_of eq pc (get_zone source s) of
        None \<Rightarrow> Inl ValueError
      | Some i \<Rightarrow>
          (let src = get_zone source s;
               popped = src ! i;
               s1 = set_zone source (take i src @ drop (Suc i) src) s
           in Inr (set_zone destination (get_zone destination s1 @ [popped]) s1)))"

text \<open>\<open>destination.append(source.pop())\<close>; \<open>pop\<close> raises IndexError on an empty list.\<close>

definition transfer_top_piece :: "zone \<Rightarrow> zone \<Rightarrow> state \<Rightarrow> error + state" where
  "transfer_top_piece destination source s =
     (let src = get_zone source s
      in if src = [] then Inl IndexError
         else (let s1 = set_zone source (butlast src) s
               in Inr (set_zone destination (get_zone destination s1 @ [last src]) s1)))"

definition add_action :: "int \<Rightarrow> state \<Rightarrow> state" where
  "add_action n s = s\<lparr>n_action := n_action s + n\<rparr>"

definition add_buy :: "int \<Rightarrow> state \<Rightarrow> state" where
  "add_buy n s = s\<lparr>n_buy := n_buy s + n\<rparr>"

definition add_coin :: "int \<Rightarrow> state \<Rightarrow> state" where
  "add_coin n s = s\<lparr>n_coin := n_coin s + n\<rparr>"

definition add_merchant_silver_bonus :: "state \<Rightarrow> state" where
  "add_merchant_silver_bonus s = s\<lparr>merchant_silver_bonus := merchant_silver_bonus s + 1\<rparr>"

definition add_silver :: "state \<Rightarrow> state" where
  "add_silver s =
     (let s1 = add_coin 2 s;
          s2 = s1\<lparr>n_silver_played_this_turn := n_silver_played_this_turn s1 + 1\<rparr>
      in if n_silver_played_this_turn s2 = 1 then add_coin (merchant_silver_bonus s2) s2 else s2)"

definition pay_cost :: "piece \<Rightarrow> state \<Rightarrow> state" where
  "pay_cost pc s = (s\<lparr>n_buy := n_buy s - 1\<rparr>)\<lparr>n_coin := n_coin s - cost pc\<rparr>"

text \<open>\<open>handle_acquisition\<close>: \<open>state.piles[piece.total_order_index]\<close> raises IndexError
  when there is no such pile.\<close>

definition handle_acquisition ::
  "(piece \<Rightarrow> piece \<Rightarrow> bool) \<Rightarrow> nat \<Rightarrow> piece \<Rightarrow> zone \<Rightarrow> state \<Rightarrow> error + state" where
  "handle_acquisition eq plr pc destination s =
     (if length (piles s) \<le> total_order_index pc then Inl IndexError
      else (let source = Pile (total_order_index pc)
            in and_then (transfer_piece eq pc destination source s) (\<lambda>s1.
                 if get_zone source s1 = [] then
                   (let s2 = s1\<lparr>n_empty_piles := n_empty_piles s1 + 1\<rparr>
                    in Inr (if is_province pc then s2\<lparr>province_pile_empty := True\<rparr> else s2))
                 else Inr s1)))"

definition gain ::
  "(piece \<Rightarrow> piece \<Rightarrow> bool) \<Rightarrow> nat \<Rightarrow> piece \<Rightarrow> zone option \<Rightarrow> state \<Rightarrow> error + state" where
  "gain eq actor pc destination s =
     handle_acquisition eq actor pc
       (case destination of None \<Rightarrow> Discard actor | Some d \<Rightarrow> d) s"

definition buy_piece ::
  "(piece \<Rightarrow> piece \<Rightarrow> bool) \<Rightarrow> nat \<Rightarrow> piece \<Rightarrow> zone option \<Rightarrow> state \<Rightarrow> error + state" where
  "buy_piece eq actor pc destination s =
     handle_acquisition eq actor pc
       (case destination of None \<Rightarrow> Discard actor | Some d \<Rightarrow> d) (pay_cost pc s)"

text \<open>\<open>while source: destination.append(source.pop())\<close> on two local lists.\<close>

function transfer_all :: "piece list \<Rightarrow> piece list \<Rightarrow> piece list \<times> piece list" where
  "transfer_all destination source =
     (if source = [] then (destination, source)
      else transfer_all (destination @ [last source]) (butlast source))"
  by pat_completeness auto
termination
  by (relation "measure (\<lambda>(d, src). length src)") auto

declare transfer_all.simps [simp del]

text \<open>
  \<open>replenish_deck(actor)\<close>.  \<open>np.random.shuffle\<close> is the parameter \<open>sh\<close>: any function
  on lists, of which the theorems assume no more than that it permutes its argument.
\<close>

definition replenish_deck :: "(piece list \<Rightarrow> piece list) \<Rightarrow> nat \<Rightarrow> state \<Rightarrow> state" where
  "replenish_deck sh actor s =
     (let (limbo, deck0) = transfer_all [] (get_zone (Deck actor) s);
          s1 = set_zone (Deck actor) deck0 s;
          s2 = set_zone (Deck actor) (get_zone (Deck actor) s1 @ get_zone (Discard actor) s1) s1;
          s3 = set_zone (Discard actor) [] s2;
          s4 = set_zone (Deck actor) (sh (get_zone (Deck actor) s3)) s3;
          (deck1, limbo1) = transfer_all (get_zone (Deck actor) s4) limbo
      in set_zone (Deck actor) deck1 s4)"

definition validate_deck_size :: "nat \<Rightarrow> int \<Rightarrow> state \<Rightarrow> bool" where
  "validate_deck_size actor n s = (n \<le> int (length (get_zone (Deck actor) s)))"

definition prepare_deck :: "(piece list \<Rightarrow> piece list) \<Rightarrow> nat \<Rightarrow> int \<Rightarrow> state \<Rightarrow> state" where
  "prepare_deck sh actor n s =
     (if \<not> validate_deck_size actor n s then
        (if get_zone (Discard actor) s \<noteq> [] then replenish_deck sh actor s else s)
      else s)"

text \<open>\<open>for i in range(k): transfer_top_piece(destination, source)\<close>\<close>

fun transfer_top_pieces :: "nat \<Rightarrow> zone \<Rightarrow> zone \<Rightarrow> state \<Rightarrow> error + state" where
  "transfer_top_pieces 0 destination source s = Inr s"
| "transfer_top_pieces (Suc k) destination source s =
     and_then (transfer_top_piece destination source s) (transfer_top_pieces k destination source)"

text \<open>
  \<open>draw(state, actor, n)\<close>.  \<open>range(true_n)\<close> is empty for \<open>true_n \<le> 0\<close>.  The closing
  \<open>actor.peek(...)\<close> is a hook of the Actor class, outside the engine; it receives a copy
  of a slice of the hand and is taken to leave every zone as it is.
\<close>

definition draw :: "(piece list \<Rightarrow> piece list) \<Rightarrow> nat \<Rightarrow> int \<Rightarrow> state \<Rightarrow> error + state" where
  "draw sh actor n s =
     (let s1 = prepare_deck sh actor n s;
          true_n = min n (int (length (get_zone (Deck actor) s1)))
      in transfer_top_pieces (nat true_n) (Hand actor) (Deck actor) s1)"

definition add_card :: "(piece list \<Rightarrow> piece list) \<Rightarrow> int \<Rightarrow> state \<Rightarrow> error + state" where
  "add_card sh n s = draw sh (current_player s) n s"

text \<open>\<open>swap_top_cards_of_deck\<close>: two \<open>pop()\<close>s into a local list, then \<open>extend\<close>.\<close>

definition swap_top_cards_of_deck :: "nat \<Rightarrow> state \<Rightarrow> error + state" where
  "swap_top_cards_of_deck actor s =
     (let deck = get_zone (Deck actor) s
      in if deck = [] then Inl IndexError
         else (let limbo = [last deck]; deck1 = butlast deck
               in if deck1 = [] then Inl IndexError
                  else (let limbo1 = limbo @ [last deck1]; deck2 = butlast deck1
                        in Inr (set_zone (Deck actor) (deck2 @ limbo1) s))))"

definition trash ::
  "(piece \<Rightarrow> piece \<Rightarrow> bool) \<Rightarrow> nat \<Rightarrow> piece \<Rightarrow> zone option \<Rightarrow> state \<Rightarrow> error + state" where
  "trash eq actor pc source s =
     transfer_piece eq pc Trash (case source of None \<Rightarrow> Hand actor | Some z \<Rightarrow> z) s"

fun trash_pieces ::
  "(piece \<Rightarrow> piece \<Rightarrow> bool) \<Rightarrow> nat \<Rightarrow> piece list \<Rightarrow> zone option \<Rightarrow> state \<Rightarrow> error + state" where
  "trash_pieces eq actor [] source s = Inr s"
| "trash_pieces eq actor (pc # pieces) source s =
     and_then (trash eq actor pc source s) (trash_pieces eq actor pieces source)"

definition reveal :: "nat \<Rightarrow> piece \<Rightarrow> state \<Rightarrow> state" where
  "reveal actor pc s = s"

definition do_nothing :: "nat \<Rightarrow> state \<Rightarrow> state" where
  "do_nothing actor s = s"

definition put ::
  "(piece \<Rightarrow> piece \<Rightarrow> bool) \<Rightarrow> nat \<Rightarrow> piece \<Rightarrow> zone option \<Rightarrow> zone option \<Rightarrow> state
     \<Rightarrow> error + state" where
  "put eq actor pc destination source s =
     transfer_piece eq pc (case destination of None \<Rightarrow> Hand actor | Some z \<Rightarrow> z)
       (case source of None \<Rightarrow> Deck actor | Some z \<Rightarrow> z) s"

definition set_aside ::
  "(piece \<Rightarrow> piece \<Rightarrow> bool) \<Rightarrow> nat \<Rightarrow> piece \<Rightarrow> zone \<Rightarrow> state \<Rightarrow> error + state" where
  "set_aside eq actor pc source s = transfer_piece eq pc (Aside actor) source s"

definition topdeck ::
  "(piece \<Rightarrow> piece \<Rightarrow> bool) \<Rightarrow> nat \<Rightarrow> piece \<Rightarrow> zone \<Rightarrow> state \<Rightarrow> error + state" where
  "topdeck eq actor pc source s = transfer_piece eq pc (Deck actor) source s"

text \<open>
  Modelled from the spec: \<open>partition\<close> of the combinatorics module, which is not part of
  the sources at hand.  ``\<open>partition(predicate, items) -> (matching, non_matching)\<close>: stable,
  preserves input order within each output.''
\<close>

definition partition_items :: "('a \<Rightarrow> bool) \<Rightarrow> 'a list \<Rightarrow> 'a list \<times> 'a list" where
  "partition_items P items = (filter P items, filter (\<lambda>x. \<not> P x) items)"

text \<open>\<open>discard_piece\<close>: the test is \<open>x is piece\<close>; \<open>clear\<close> and \<open>extend\<close> act on the
  list objects, one after the other.\<close>

definition discard_piece :: "nat \<Rightarrow> piece \<Rightarrow> zone option \<Rightarrow> state \<Rightarrow> state" where
  "discard_piece actor pc source s =
     (let src = (case source of None \<Rightarrow> Hand actor | Some z \<Rightarrow> z);
          (to_discard, to_keep) = partition_items (\<lambda>x. uid x = uid pc) (get_zone src s);
          s1 = set_zone src [] s;
          s2 = set_zone src (get_zone src s1 @ to_keep) s1
      in set_zone (Discard actor) (get_zone (Discard actor) s2 @ to_discard) s2)"

definition discard_pieces :: "nat \<Rightarrow> piece list \<Rightarrow> zone option \<Rightarrow> state \<Rightarrow> state" where
  "discard_pieces actor pieces source s =
     (let src = (case source of None \<Rightarrow> Hand actor | Some z \<Rightarrow> z);
          to_discard = filter (\<lambda>pc. list_ex (\<lambda>piece_to_discard. uid piece_to_discard = uid pc) pieces)
                         (get_zone src s);
          to_keep = filter (\<lambda>pc. \<not> list_ex (\<lambda>piece_to_discard. uid piece_to_discard = uid pc) pieces)
                         (get_zone src s);
          s1 = set_zone src [] s;
          s2 = set_zone src (get_zone src s1 @ to_keep) s1
      in set_zone (Discard actor) (get_zone (Discard actor) s2 @ to_discard) s2)"

definition discard_zone :: "nat \<Rightarrow> zone \<Rightarrow> state \<Rightarrow> state" where
  "discard_zone actor source s =
     (let s1 = set_zone (Discard actor) (get_zone (Discard actor) s @ get_zone source s) s
      in set_zone source [] s1)"

section \<open>Collaborators outside the engine module\<close>

text \<open>
  Modelled from the spec: \<open>get_pieces\<close> of the combinatorics module (not part of the
  sources at hand).  ``\<open>get_pieces(zone, unique, predicate=None) -> list\<close>: filters by
  predicate; if \<open>unique\<close>, returns at most one representative per distinct Piece type,
  keeping the first occurrence in zone order.''  The Piece type is read off
  \<open>total_order_index\<close>, the ``stable, globally unique rank'' of a type.
\<close>

fun first_of_each_type :: "nat list \<Rightarrow> piece list \<Rightarrow> piece list" where
  "first_of_each_type seen [] = []"
| "first_of_each_type seen (x # xs) =
     (if total_order_index x \<in> set seen then first_of_each_type seen xs
      else x # first_of_each_type (total_order_index x # seen) xs)"

definition get_pieces :: "piece list \<Rightarrow> bool \<Rightarrow> (piece \<Rightarrow> bool) option \<Rightarrow> piece list" where
  "get_pieces zn unique predicate =
     (let kept = (case predicate of None \<Rightarrow> zn | Some P \<Rightarrow> filter P zn)
      in if unique then first_of_each_type [] kept else kept)"

text \<open>
  Modelled from the spec: \<open>get_piece_combinations\<close> of the combinatorics module (not part
  of the sources at hand).  ``Enumerates every subset of the zone (by position, not by type)
  whose size lies in \<open>[kmin, kmax]\<close> (default \<open>kmax = len(zone)\<close>).''  The order taken
  here is by size, then by position.
\<close>

fun combinations :: "'a list \<Rightarrow> nat \<Rightarrow> 'a list list" where
  "combinations xs 0 = [[]]"
| "combinations [] (Suc k) = []"
| "combinations (x # xs) (Suc k) = map ((#) x) (combinations xs k) @ combinations xs (Suc k)"

definition get_piece_combinations :: "piece list \<Rightarrow> nat \<Rightarrow> nat option \<Rightarrow> piece list list" where
  "get_piece_combinations zn kmin kmax =
     concat (map (combinations zn)
       [kmin ..< Suc (case kmax of None \<Rightarrow> length zn | Some k \<Rightarrow> k)])"

text \<open>
  Modelled from the spec: \<open>State.filter_supply\<close> (the State class is not part of the
  sources at hand).  The Supply is ``the ordered list of Supply piles (indexed by
  \<open>total_order_index\<close>)'' and Buy ``filters Supply piles by \<open>cost <= n_coin\<close>''; the
  tests take a Purchase's piece to be the last element of its pile.  So: the top piece of
  every non-empty pile that satisfies the predicate, in pile order.
\<close>

definition filter_supply :: "(piece \<Rightarrow> bool) \<Rightarrow> state \<Rightarrow> piece list" where
  "filter_supply P s = map last (filter (\<lambda>pile. pile \<noteq> [] \<and> P (last pile)) (piles s))"

text \<open>
  Modelled from the spec: \<open>Actor.opponents\<close> (the Actor class is not part of the sources
  at hand): ``other players starting from the next player in turn order, wrapping''.
\<close>

definition opponents :: "state \<Rightarrow> nat \<Rightarrow> nat list" where
  "opponents s actor =
     map (\<lambda>k. (actor + k) mod length (players s)) [1 ..< length (players s)]"

section \<open>Effects, Processes, Consequences and Decisions as data\<close>

text \<open>
  The Decision classes.  \<open>BureaucratProcedure_class\<close> is the class object itself, which
  \<open>BureaucratAttack\<close> hands to \<open>Initiate\<close> in place of an instance.
\<close>

datatype decision =
    Decision
  | ImmunityProcedure
  | ActionChoices
  | TreasureChoices
  | BuyChoices
  | MineChoices
  | CellarChoices
  | RemodelChoices
  | MilitiaVictimProcedure
  | MilitiaChoices
  | WorkshopChoices
  | ChapelChoices
  | HarbingerChoices
  | VassalChoices
  | BureaucratProcedure
  | BureaucratProcedure_class
  | BureaucratChoices
  | MoneylenderChoices
  | PoacherProcedure
  | PoacherChoices
  | ThroneRoomChoices
  | BanditProcedure
  | BanditChoices
  | CouncilRoomProcedure
  | CouncilRoomChoices
  | LibraryProcedure
  | LibraryTeardown
  | LibraryChoices
  | SentryChoices
  | WitchProcedure
  | WitchChoices
  | ArtisanChoices

text \<open>
  An \<open>Effect\<close> is a function of the engine with its keyword arguments: one constructor
  for each function that the engine or the card catalogue binds, carrying the keyword
  arguments (an optional one as an option, \<open>None\<close> for ``not given'').  \<open>Initiate\<close> binds
  \<open>resolve\<close>; \<open>Update_mark_immunity\<close> is \<open>Update(process.mark_immunity)\<close>, whose
  process is the Attack in whose setup the Consequence holding it is enacted.
  \<open>Process\<close> is a Process object (named by its class and its \<open>actor\<close>), which a
  Consequence holds beside Effects.
\<close>

datatype process =
    MilitiaAttack nat
  | BureaucratAttack nat
  | BanditAttack nat
  | WitchAttack nat
  | LibraryProcess nat

datatype effect =
    Effect_end_phase nat phase
  | Effect_do_nothing nat
  | Effect_play_piece nat piece "zone option" bool
  | Effect_buy_piece nat piece
  | Effect_gain nat piece "zone option"
  | Effect_trash nat piece "zone option"
  | Effect_trash_pieces nat "piece list"
  | Effect_reveal nat piece
  | Effect_put nat piece
  | Effect_set_aside nat piece zone
  | Effect_topdeck nat piece zone
  | Effect_discard_piece nat piece "zone option"
  | Effect_discard_pieces nat "piece list" "zone option"
  | Effect_discard_zone nat zone
  | Effect_draw nat int
  | Effect_swap_top_cards_of_deck nat
  | Effect_add_card int
  | Effect_add_action int
  | Effect_add_buy int
  | Effect_add_coin int
  | Effect_add_merchant_silver_bonus
  | Effect_add_silver
  | Effect_play_treasures nat "piece list"
  | Effect_resolve_effects nat piece
  | Initiate nat decision "nat option"
  | Update_mark_immunity
  | Process process

text \<open>The class of a Consequence object.\<close>

datatype consequence_class =
    Consequence_class
  | PassOption_class
  | NullOption_class
  | Act_class
  | Acquisition_class
  | Purchase_class
  | DependentAcquisition_class

text \<open>A Consequence object; an attribute its class does not have is \<open>None\<close>.\<close>

record consequence =
  cclass :: consequence_class
  effects :: "effect list"
  custom_message :: "string list option"
  action :: "piece option"
  gained_piece :: "piece option"
  lost_piece :: "piece option"

definition Consequence :: "effect list \<Rightarrow> string list option \<Rightarrow> consequence" where
  "Consequence effs msg =
     \<lparr>cclass = Consequence_class, effects = effs, custom_message = msg, action = None,
      gained_piece = None, lost_piece = None\<rparr>"

definition PassOption :: "nat \<Rightarrow> phase \<Rightarrow> consequence" where
  "PassOption actor ph = (Consequence [Effect_end_phase actor ph] None)\<lparr>cclass := PassOption_class\<rparr>"

definition NullOption :: "nat \<Rightarrow> string list option \<Rightarrow> consequence" where
  "NullOption actor msg = (Consequence [Effect_do_nothing actor] msg)\<lparr>cclass := NullOption_class\<rparr>"

definition Act :: "nat \<Rightarrow> piece \<Rightarrow> consequence" where
  "Act actor act =
     (Consequence [Effect_play_piece actor act None False] None)
       \<lparr>cclass := Act_class, action := Some act\<rparr>"

text \<open>\<open>effect.kwargs['piece']\<close>: KeyError without such a keyword; a Process object has
  no \<open>kwargs\<close> at all.\<close>

fun kwargs_piece :: "effect \<Rightarrow> error + piece" where
  "kwargs_piece (Effect_play_piece a pc src free) = Inr pc"
| "kwargs_piece (Effect_buy_piece a pc) = Inr pc"
| "kwargs_piece (Effect_gain a pc dst) = Inr pc"
| "kwargs_piece (Effect_trash a pc src) = Inr pc"
| "kwargs_piece (Effect_reveal a pc) = Inr pc"
| "kwargs_piece (Effect_put a pc) = Inr pc"
| "kwargs_piece (Effect_set_aside a pc src) = Inr pc"
| "kwargs_piece (Effect_topdeck a pc src) = Inr pc"
| "kwargs_piece (Effect_discard_piece a pc src) = Inr pc"
| "kwargs_piece (Effect_resolve_effects a pc) = Inr pc"
| "kwargs_piece (Process p) = Inl AttributeError"
| "kwargs_piece e = Inl KeyError"

text \<open>\<open>Acquisition(*effects)\<close>: \<open>gained_piece = effects[0].kwargs['piece']\<close>.\<close>

definition Acquisition :: "effect list \<Rightarrow> error + consequence" where
  "Acquisition effs =
     (case effs of
        [] \<Rightarrow> Inl IndexError
      | e # _ \<Rightarrow> and_then (kwargs_piece e) (\<lambda>pc.
          Inr ((Consequence effs None)\<lparr>cclass := Acquisition_class, gained_piece := Some pc\<rparr>)))"

definition Purchase :: "nat \<Rightarrow> piece \<Rightarrow> error + consequence" where
  "Purchase actor pc =
     and_then (Acquisition [Effect_buy_piece actor pc]) (\<lambda>c. Inr (c\<lparr>cclass := Purchase_class\<rparr>))"

text \<open>\<open>DependentAcquisition(*effects)\<close>: after \<open>Acquisition.__init__\<close>,
  \<open>gained_piece = effects[1].kwargs['piece']\<close> and \<open>lost_piece = effects[0].kwargs['piece']\<close>.\<close>

definition DependentAcquisition :: "effect list \<Rightarrow> error + consequence" where
  "DependentAcquisition effs =
     and_then (Acquisition effs) (\<lambda>c.
       case effs of
         e0 # e1 # _ \<Rightarrow>
           and_then (kwargs_piece e1) (\<lambda>g. and_then (kwargs_piece e0) (\<lambda>l.
             Inr (c\<lparr>cclass := DependentAcquisition_class, gained_piece := Some g,
                    lost_piece := Some l\<rparr>)))
       | _ \<Rightarrow> Inl IndexError)"

text \<open>\<open>consequence.add(effect)\<close>\<close>

definition add :: "effect \<Rightarrow> consequence \<Rightarrow> consequence" where
  "add e c = c\<lparr>effects := effects c @ [e]\<rparr>"

text \<open>A list built by a loop whose body may raise: the first exception ends it.\<close>

fun collect :: "(error + 'a) list \<Rightarrow> error + 'a list" where
  "collect [] = Inr []"
| "collect (r # rs) = and_then r (\<lambda>x. and_then (collect rs) (\<lambda>xs. Inr (x # xs)))"

section \<open>The Decision catalogue\<close>

text \<open>
  \<open>generate_choices(state, actor)\<close> of each Decision class.  A reference to a name that
  is bound nowhere (neither in the function nor in the module) raises NameError when it is
  evaluated.  The generators that call \<open>prepare_deck\<close> return the state as well.
\<close>

definition success_message :: "string list" where
  "success_message = [''become immune to the attack by revealing Moat.'',
                      ''becomes immune to the attack by revealing Moat.'']"

definition failure_message :: "string list" where
  "failure_message = [''fail to defend yourself.'', ''fails to defend themselves.'']"

definition ImmunityProcedure_generate_choices :: "state \<Rightarrow> nat \<Rightarrow> consequence list" where
  "ImmunityProcedure_generate_choices s actor =
     (let moat = get_pieces (get_zone (Hand actor) s) True (Some (\<lambda>x. name x = ''Moat''))
      in case moat of
           m # _ \<Rightarrow> [Consequence [Effect_reveal actor m, Update_mark_immunity] (Some success_message)]
         | [] \<Rightarrow> [NullOption actor (Some failure_message)])"

definition ActionChoices_generate_choices :: "state \<Rightarrow> nat \<Rightarrow> consequence list" where
  "ActionChoices_generate_choices s actor =
     (let choices = [PassOption actor ACTION_PHASE]
      in if n_action s \<noteq> 0 then
           (let actions = get_pieces (get_zone (Hand actor) s) True (Some is_action)
            in choices @ map (Act actor) actions)
         else choices)"

definition TreasureChoices_generate_choices :: "state \<Rightarrow> nat \<Rightarrow> consequence list" where
  "TreasureChoices_generate_choices s actor =
     (let choices = [PassOption actor TREASURE_PHASE];
          treasures = get_pieces (get_zone (Hand actor) s) False (Some is_treasure)
      in if treasures \<noteq> [] then
           choices @ [Consequence [Effect_play_treasures actor treasures] None]
         else choices)"

definition BuyChoices_generate_choices :: "state \<Rightarrow> nat \<Rightarrow> error + consequence list" where
  "BuyChoices_generate_choices s actor =
     (let choices = [PassOption actor BUY_PHASE]
      in if n_buy s \<noteq> 0 then
           (let buyables = filter_supply (\<lambda>x. cost x \<le> n_coin s) s
            in and_then (collect (map (Purchase actor) buyables)) (\<lambda>purchases.
                 Inr (choices @ purchases)))
         else Inr choices)"

definition MineChoices_generate_choices :: "state \<Rightarrow> nat \<Rightarrow> error + consequence list" where
  "MineChoices_generate_choices s actor =
     (let choices = [NullOption actor None];
          trashables = get_pieces (get_zone (Hand actor) s) True (Some is_treasure)
      in and_then
           (collect (concat (map (\<lambda>trashable.
              (let max_cost = cost trashable + 3;
                   gainables = filter_supply (\<lambda>x. is_treasure x \<and> cost x \<le> max_cost) s
               in if gainables \<noteq> [] then
                    map (\<lambda>gainable. DependentAcquisition
                           [Effect_trash actor trashable None, Effect_gain actor gainable None])
                      gainables
                  else [Inr (Consequence [Effect_trash actor trashable None] None)]))
              trashables)))
           (\<lambda>more. Inr (choices @ more)))"

definition CellarChoices_generate_heuristic_choices :: "state \<Rightarrow> nat \<Rightarrow> consequence list" where
  "CellarChoices_generate_heuristic_choices s actor =
     (let pieces_to_discard = get_pieces (get_zone (Hand actor) s) False (Some is_victory)
      in if pieces_to_discard \<noteq> [] then
           [Consequence [Effect_discard_pieces actor pieces_to_discard None,
                         Effect_draw actor (int (length pieces_to_discard))] None]
         else [])"

text \<open>
  The human branch sorts each combination by \<open>repr\<close> and the choices by the pair
  (number of pieces, \<open>repr\<close> of the first piece); both sorts are stable.  The key of a
  choice reads \<open>pieces[0]\<close>, an IndexError on an empty combination.
\<close>

definition CellarChoices_generate_human_choices :: "state \<Rightarrow> nat \<Rightarrow> error + consequence list" where
  "CellarChoices_generate_human_choices s actor =
     (let discardables = get_zone (Hand actor) s;
          choices =
            (if discardables \<noteq> [] then
               map (\<lambda>combo. (let combo1 = sort_key name combo
                              in Consequence [Effect_discard_pieces actor combo1 None,
                                              Effect_draw actor (int (length combo1))] None))
                 (get_piece_combinations discardables 1 None)
             else [])
      in and_then
           (collect (map (\<lambda>c. case effects c of
                                 [Effect_discard_pieces a (p # ps) src, Effect_draw b n] \<Rightarrow>
                                   Inr ((n, name p), c)
                               | _ \<Rightarrow> Inl IndexError) choices))
           (\<lambda>keyed. Inr (map snd (sort_key fst keyed))))"

definition CellarChoices_generate_choices :: "state \<Rightarrow> nat \<Rightarrow> error + consequence list" where
  "CellarChoices_generate_choices s actor =
     (let choices = [NullOption actor None]
      in if actor_repr (players s ! actor) = ''You'' then
           and_then (CellarChoices_generate_human_choices s actor) (\<lambda>more. Inr (choices @ more))
         else Inr (choices @ CellarChoices_generate_heuristic_choices s actor))"

definition RemodelChoices_generate_choices :: "state \<Rightarrow> nat \<Rightarrow> error + consequence list" where
  "RemodelChoices_generate_choices s actor =
     (let trashables = get_pieces (get_zone (Hand actor) s) True None
      in if trashables \<noteq> [] then
           collect (concat (map (\<lambda>trashable.
             (let gainables = filter_supply (\<lambda>x. cost x \<le> cost trashable + 2) s
              in if gainables \<noteq> [] then
                   map (\<lambda>gainable. DependentAcquisition
                          [Effect_trash actor trashable None, Effect_gain actor gainable None])
                     gainables
                 else [Inr (Consequence [Effect_trash actor trashable None] None)]))
             trashables))
         else Inr [NullOption actor None])"

definition MilitiaVictimProcedure_generate_choices :: "state \<Rightarrow> nat \<Rightarrow> consequence list" where
  "MilitiaVictimProcedure_generate_choices s actor =
     (let discardables = get_pieces (get_zone (Hand actor) s) True None
      in map (\<lambda>discardable. Consequence [Effect_discard_piece actor discardable None] None)
           discardables)"

definition MilitiaChoices_generate_choices :: "state \<Rightarrow> nat \<Rightarrow> consequence list" where
  "MilitiaChoices_generate_choices s actor =
     [Consequence (map (\<lambda>victim. Process (MilitiaAttack victim)) (opponents s actor))
        (Some [''attack with Militia!'', ''attacks with Militia!''])]"

definition WorkshopChoices_generate_choices :: "state \<Rightarrow> nat \<Rightarrow> error + consequence list" where
  "WorkshopChoices_generate_choices s actor =
     (let gainables = filter_supply (\<lambda>x. cost x \<le> 4) s
      in if gainables \<noteq> [] then
           collect (map (\<lambda>gainable. Acquisition [Effect_gain actor gainable None]) gainables)
         else Inr [NullOption actor None])"

definition ChapelChoices_generate_choices :: "state \<Rightarrow> nat \<Rightarrow> consequence list" where
  "ChapelChoices_generate_choices s actor =
     (let choices = [NullOption actor None];
          trashables = get_zone (Hand actor) s
      in if trashables \<noteq> [] then
           choices @ map (\<lambda>combo. Consequence [Effect_trash_pieces actor combo] None)
                       (get_piece_combinations trashables 1 (Some 4))
         else choices)"

definition HarbingerChoices_generate_choices :: "state \<Rightarrow> nat \<Rightarrow> consequence list" where
  "HarbingerChoices_generate_choices s actor =
     (let choices = [NullOption actor None];
          targets = get_pieces (get_zone (Discard actor) s) True None
      in choices @ map (\<lambda>target. Consequence [Effect_topdeck actor target (Discard actor)] None)
                     targets)"

definition VassalChoices_generate_choices ::
  "(piece list \<Rightarrow> piece list) \<Rightarrow> state \<Rightarrow> nat \<Rightarrow> consequence list \<times> state" where
  "VassalChoices_generate_choices sh s actor =
     (let s1 = prepare_deck sh actor 1 s
      in if get_zone (Deck actor) s1 = [] then ([NullOption actor None], s1)
         else (let topcard = last (get_zone (Deck actor) s1);
                   choices = [Consequence [Effect_discard_piece actor topcard (Some (Deck actor))] None]
               in if is_action topcard then
                    (choices @ [Consequence [Effect_play_piece actor topcard (Some (Deck actor)) True]
                                  None], s1)
                  else (choices, s1)))"

text \<open>\<open>BureaucratProcedure\<close> never binds \<open>choices\<close>: whichever branch is taken, its first
  statement that mentions the name raises.\<close>

definition BureaucratProcedure_generate_choices :: "state \<Rightarrow> nat \<Rightarrow> error + consequence list" where
  "BureaucratProcedure_generate_choices s actor =
     (let victory_cards = get_pieces (get_zone (Hand actor) s) True (Some is_victory)
      in if victory_cards = [] then
           (if get_zone (Hand actor) s = [] then Inl (NameError ''choices'')
            else (let reveal_effects = map (Effect_reveal actor) (get_zone (Hand actor) s)
                  in Inl (NameError ''choices'')))
         else Inl (NameError ''choices''))"

definition BureaucratChoices_generate_choices :: "state \<Rightarrow> nat \<Rightarrow> error + consequence list" where
  "BureaucratChoices_generate_choices s actor =
     (let silver = filter_supply (\<lambda>x. name x = ''Silver'') s
      in and_then
           (if silver \<noteq> [] then Acquisition [Effect_gain actor (last silver) (Some (Deck actor))]
            else Inr (Consequence [] None))
           (\<lambda>outcome. Inr [foldl (\<lambda>c victim. add (Process (BureaucratAttack victim)) c) outcome
                              (opponents s actor)]))"

definition MoneylenderChoices_generate_choices :: "state \<Rightarrow> nat \<Rightarrow> consequence list" where
  "MoneylenderChoices_generate_choices s actor =
     (let choices = [NullOption actor None];
          coppers = get_pieces (get_zone (Hand actor) s) True (Some (\<lambda>x. name x = ''Copper''))
      in case coppers of
           c # _ \<Rightarrow> choices @ [Consequence [Effect_trash actor c None, Effect_add_coin 2] None]
         | [] \<Rightarrow> choices)"

definition PoacherProcedure_generate_choices :: "state \<Rightarrow> nat \<Rightarrow> consequence list" where
  "PoacherProcedure_generate_choices s actor =
     (let discardables = get_pieces (get_zone (Hand actor) s) True None;
          effs = map (\<lambda>card. Effect_discard_piece actor card None) discardables
      in [Consequence effs None])"

definition PoacherChoices_generate_choices :: "state \<Rightarrow> nat \<Rightarrow> consequence list" where
  "PoacherChoices_generate_choices s actor =
     (let n_to_discard = min (n_empty_piles s) (int (length (get_zone (Hand actor) s)))
      in if n_to_discard = 0 then [NullOption actor None]
         else [Consequence (replicate (nat n_to_discard) (Initiate actor PoacherProcedure None)) None])"

definition ThroneRoomChoices_generate_choices :: "state \<Rightarrow> nat \<Rightarrow> consequence list" where
  "ThroneRoomChoices_generate_choices s actor =
     (let choices = [NullOption actor None];
          actions = get_pieces (get_zone (Hand actor) s) True (Some is_action)
      in choices @ map (\<lambda>act. Consequence [Effect_play_piece actor act (Some (Hand actor)) False,
                                            Effect_resolve_effects actor act] None) actions)"

definition could_trash :: "piece \<Rightarrow> bool" where
  "could_trash pc = (is_treasure pc \<and> name pc \<noteq> ''Copper'')"

text \<open>\<open>BanditProcedure\<close>: with a single card in the deck the Effect is built from
  \<open>effect_method\<close>, a name bound nowhere (the line before binds \<open>effect_function\<close>).\<close>

definition BanditProcedure_generate_choices ::
  "(piece list \<Rightarrow> piece list) \<Rightarrow> state \<Rightarrow> nat \<Rightarrow> error + consequence list \<times> state" where
  "BanditProcedure_generate_choices sh s actor =
     (let s1 = prepare_deck sh actor 2 s;
          deck = get_zone (Deck actor) s1
      in if deck = [] then Inr ([NullOption actor None], s1)
         else if length deck = 1 then Inl (NameError ''effect_method'')
         else
           (let topcards = [last deck, last (butlast deck)];
                reveal_effects = map (Effect_reveal actor) topcards;
                (trashables, discardables) = partition_items could_trash topcards;
                unique_trashables = get_pieces trashables True None
            in case unique_trashables of
                 [t0, t1] \<Rightarrow>
                   Inr ([Consequence (reveal_effects @
                           [Effect_trash actor t0 (Some (Deck actor)),
                            Effect_discard_piece actor t1 (Some (Deck actor))]) None,
                         Consequence (reveal_effects @
                           [Effect_trash actor t1 (Some (Deck actor)),
                            Effect_discard_piece actor t0 (Some (Deck actor))]) None], s1)
               | [trashable] \<Rightarrow>
                   (let c = Consequence (reveal_effects @
                              [Effect_trash actor trashable (Some (Deck actor))]) None
                    in case discardables of
                         discardable # _ \<Rightarrow>
                           Inr ([add (Effect_discard_piece actor discardable (Some (Deck actor))) c], s1)
                       | [] \<Rightarrow> Inr ([c], s1))
               | _ \<Rightarrow>
                   Inr ([Consequence (reveal_effects @
                           [Effect_discard_pieces actor discardables (Some (Deck actor))]) None], s1)))"

definition BanditChoices_generate_choices :: "state \<Rightarrow> nat \<Rightarrow> error + consequence list" where
  "BanditChoices_generate_choices s actor =
     (let gold = filter_supply (\<lambda>x. name x = ''Gold'') s
      in and_then
           (if gold \<noteq> [] then Acquisition [Effect_gain actor (last gold) None]
            else Inr (Consequence [Effect_do_nothing actor] None))
           (\<lambda>outcome. Inr [foldl (\<lambda>c victim. add (Process (BanditAttack victim)) c) outcome
                              (opponents s actor)]))"

definition CouncilRoomProcedure_generate_choices :: "state \<Rightarrow> nat \<Rightarrow> consequence list" where
  "CouncilRoomProcedure_generate_choices s actor = [Consequence [Effect_draw actor 1] None]"

definition CouncilRoomChoices_generate_choices :: "state \<Rightarrow> nat \<Rightarrow> consequence list" where
  "CouncilRoomChoices_generate_choices s actor =
     [foldl (\<lambda>c victim. add (Initiate victim CouncilRoomProcedure None) c) (Consequence [] None)
        (opponents s actor)]"

definition LibraryProcedure_generate_choices ::
  "(piece list \<Rightarrow> piece list) \<Rightarrow> state \<Rightarrow> nat \<Rightarrow> consequence list \<times> state" where
  "LibraryProcedure_generate_choices sh s actor =
     (let s1 = prepare_deck sh actor 1 s
      in if get_zone (Deck actor) s1 = [] then ([NullOption actor None], s1)
         else (let topcard = last (get_zone (Deck actor) s1);
                   choices = [Consequence [Effect_put actor topcard] None]
               in if is_action topcard then
                    (choices @ [Consequence [Effect_set_aside actor topcard (Deck actor)] None], s1)
                  else (choices, s1)))"

definition LibraryTeardown_generate_choices :: "state \<Rightarrow> nat \<Rightarrow> consequence list" where
  "LibraryTeardown_generate_choices s actor =
     (if get_zone (Aside actor) s = [] then [NullOption actor None]
      else [Consequence [Effect_discard_zone actor (Aside actor)] None])"

text \<open>\<open>LibraryProcess.antecedent\<close>\<close>

definition LibraryProcess_antecedent :: "nat \<Rightarrow> state \<Rightarrow> bool" where
  "LibraryProcess_antecedent actor s =
     (let handsize = length (get_zone (Hand actor) s);
          n_targets = length (get_zone (Deck actor) s) + length (get_zone (Discard actor) s)
      in handsize < 7 \<and> n_targets \<noteq> 0)"

definition LibraryChoices_generate_choices :: "state \<Rightarrow> nat \<Rightarrow> consequence list" where
  "LibraryChoices_generate_choices s actor =
     (if LibraryProcess_antecedent actor s then [Consequence [Process (LibraryProcess actor)] None]
      else [NullOption actor None])"

text \<open>\<open>SentryChoices\<close>: once the deck is known to hold a card, \<open>functions = [trash, discard]\<close>
  mentions \<open>discard\<close>, a name bound nowhere (the module has \<open>discard_piece\<close>,
  \<open>discard_pieces\<close> and \<open>discard_zone\<close>).  The statement raises before any choice beyond
  the NullOption is built.\<close>

definition SentryChoices_generate_choices ::
  "(piece list \<Rightarrow> piece list) \<Rightarrow> state \<Rightarrow> nat \<Rightarrow> error + consequence list \<times> state" where
  "SentryChoices_generate_choices sh s actor =
     (let s1 = prepare_deck sh actor 2 s;
          deck = get_zone (Deck actor) s1
      in if deck = [] then Inr ([NullOption actor None], s1)
         else
           (let choices = [NullOption actor None];
                decksize = length deck;
                topcards = (if decksize = 1 then [last deck] else [last deck, last (butlast deck)])
            in Inl (NameError ''discard'')))"

text \<open>\<open>WitchProcedure\<close> never binds \<open>choices\<close> either.\<close>

definition WitchProcedure_generate_choices :: "state \<Rightarrow> nat \<Rightarrow> error + consequence list" where
  "WitchProcedure_generate_choices s actor =
     (let gainables = filter_supply (\<lambda>x. name x = ''Curse'') s
      in if gainables \<noteq> [] then Inl (NameError ''choices'')
         else Inl (NameError ''choices''))"

definition WitchChoices_generate_choices :: "state \<Rightarrow> nat \<Rightarrow> consequence list" where
  "WitchChoices_generate_choices s actor =
     [foldl (\<lambda>c victim. add (Process (WitchAttack victim)) c) (Consequence [] None) (opponents s actor)]"

text \<open>\<open>ArtisanChoices\<close> calls \<open>get_cards\<close>, a name bound nowhere.\<close>

definition ArtisanChoices_generate_choices :: "state \<Rightarrow> nat \<Rightarrow> error + consequence list" where
  "ArtisanChoices_generate_choices s actor =
     (let gainables = filter_supply (\<lambda>x. cost x \<le> 5) s
      in Inl (NameError ''get_cards''))"

text \<open>
  \<open>expand_choices(state, actor, decision)\<close>, that is \<open>decision.generate_choices(state, actor)\<close>,
  with the state the call leaves.  On the class \<open>BureaucratProcedure\<close> itself the call
  binds \<open>state\<close> to \<open>self\<close> and lacks an argument: TypeError.
\<close>

definition expand_choices ::
  "(piece list \<Rightarrow> piece list) \<Rightarrow> state \<Rightarrow> nat \<Rightarrow> decision \<Rightarrow> error + consequence list \<times> state" where
  "expand_choices sh s actor d =
     (case d of
        Decision \<Rightarrow> Inr ([], s)
      | ImmunityProcedure \<Rightarrow> Inr (ImmunityProcedure_generate_choices s actor, s)
      | ActionChoices \<Rightarrow> Inr (ActionChoices_generate_choices s actor, s)
      | TreasureChoices \<Rightarrow> Inr (TreasureChoices_generate_choices s actor, s)
      | BuyChoices \<Rightarrow> and_then (BuyChoices_generate_choices s actor) (\<lambda>cs. Inr (cs, s))
      | MineChoices \<Rightarrow> and_then (MineChoices_generate_choices s actor) (\<lambda>cs. Inr (cs, s))
      | CellarChoices \<Rightarrow> and_then (CellarChoices_generate_choices s actor) (\<lambda>cs. Inr (cs, s))
      | RemodelChoices \<Rightarrow> and_then (RemodelChoices_generate_choices s actor) (\<lambda>cs. Inr (cs, s))
      | MilitiaVictimProcedure \<Rightarrow> Inr (MilitiaVictimProcedure_generate_choices s actor, s)
      | MilitiaChoices \<Rightarrow> Inr (MilitiaChoices_generate_choices s actor, s)
      | WorkshopChoices \<Rightarrow> and_then (WorkshopChoices_generate_choices s actor) (\<lambda>cs. Inr (cs, s))
      | ChapelChoices \<Rightarrow> Inr (ChapelChoices_generate_choices s actor, s)
      | HarbingerChoices \<Rightarrow> Inr (HarbingerChoices_generate_choices s actor, s)
      | VassalChoices \<Rightarrow> Inr (VassalChoices_generate_choices sh s actor)
      | BureaucratProcedure \<Rightarrow>
          and_then (BureaucratProcedure_generate_choices s actor) (\<lambda>cs. Inr (cs, s))
      | BureaucratProcedure_class \<Rightarrow> Inl TypeError
      | BureaucratChoices \<Rightarrow>
          and_then (BureaucratChoices_generate_choices s actor) (\<lambda>cs. Inr (cs, s))
      | MoneylenderChoices \<Rightarrow> Inr (MoneylenderChoices_generate_choices s actor, s)
      | PoacherProcedure \<Rightarrow> Inr (PoacherProcedure_generate_choices s actor, s)
      | PoacherChoices \<Rightarrow> Inr (PoacherChoices_generate_choices s actor, s)
      | ThroneRoomChoices \<Rightarrow> Inr (ThroneRoomChoices_generate_choices s actor, s)
      | BanditProcedure \<Rightarrow> BanditProcedure_generate_choices sh s actor
      | BanditChoices \<Rightarrow> and_then (BanditChoices_generate_choices s actor) (\<lambda>cs. Inr (cs, s))
      | CouncilRoomProcedure \<Rightarrow> Inr (CouncilRoomProcedure_generate_choices s actor, s)
      | CouncilRoomChoices \<Rightarrow> Inr (CouncilRoomChoices_generate_choices s actor, s)
      | LibraryProcedure \<Rightarrow> Inr (LibraryProcedure_generate_choices sh s actor)
      | LibraryTeardown \<Rightarrow> Inr (LibraryTeardown_generate_choices s actor, s)
      | LibraryChoices \<Rightarrow> Inr (LibraryChoices_generate_choices s actor, s)
      | SentryChoices \<Rightarrow> SentryChoices_generate_choices sh s actor
      | WitchProcedure \<Rightarrow> and_then (WitchProcedure_generate_choices s actor) (\<lambda>cs. Inr (cs, s))
      | WitchChoices \<Rightarrow> Inr (WitchChoices_generate_choices s actor, s)
      | ArtisanChoices \<Rightarrow> and_then (ArtisanChoices_generate_choices s actor) (\<lambda>cs. Inr (cs, s)))"

section \<open>The resolution loop\<close>

text \<open>
  What the engine consumes from outside its module: \<open>Piece.__eq__\<close>, the shuffle, the
  \<open>select\<close> capability of each decider (given the decider, the state it can see, the
  choices and the Decision), the card catalogue (\<open>piece.simple_effects\<close> and
  \<open>piece.decision\<close>, \<open>None\<close> when absent) and the ranking \<open>Actor.__lt__\<close> (given the
  state and the two actors), which like \<open>select\<close> may raise.
\<close>

record env =
  piece_eq :: "piece \<Rightarrow> piece \<Rightarrow> bool"
  shuffle :: "piece list \<Rightarrow> piece list"
  select :: "nat \<Rightarrow> state \<Rightarrow> consequence list \<Rightarrow> decision \<Rightarrow> error + consequence"
  simple_effects :: "piece \<Rightarrow> effect list option"
  piece_decision :: "piece \<Rightarrow> decision option"
  actor_lt :: "state \<Rightarrow> nat \<Rightarrow> nat \<Rightarrow> error + bool"

text \<open>
  A run of the engine either returns, raises, or is cut off when its fuel is used up
  (\<open>None\<close>); every call and every loop iteration uses one unit.
\<close>

type_synonym 'a run = "(error + 'a) option"

definition run_bind :: "'a run \<Rightarrow> ('a \<Rightarrow> 'b run) \<Rightarrow> 'b run" where
  "run_bind r f = (case r of None \<Rightarrow> None | Some (Inl e) \<Rightarrow> Some (Inl e) | Some (Inr x) \<Rightarrow> f x)"

text \<open>\<open>request_input(state, actor, decision, decider)\<close>\<close>

definition request_input ::
  "env \<Rightarrow> state \<Rightarrow> nat \<Rightarrow> decision \<Rightarrow> nat \<Rightarrow> error + consequence \<times> state" where
  "request_input E s actor d decider =
     and_then (expand_choices (shuffle E) s actor d) (\<lambda>(choices, s1).
       and_then (select E decider s1 choices d) (\<lambda>c. Inr (c, s1)))"

text \<open>The Effects whose function neither resolves a Decision nor plays a Piece.\<close>

definition apply_function :: "env \<Rightarrow> effect \<Rightarrow> state \<Rightarrow> error + state" where
  "apply_function E e s =
     (case e of
        Effect_end_phase a ph \<Rightarrow> Inr (end_phase a ph s)
      | Effect_do_nothing a \<Rightarrow> Inr (do_nothing a s)
      | Effect_buy_piece a pc \<Rightarrow> buy_piece (piece_eq E) a pc None s
      | Effect_gain a pc dst \<Rightarrow> gain (piece_eq E) a pc dst s
      | Effect_trash a pc src \<Rightarrow> trash (piece_eq E) a pc src s
      | Effect_trash_pieces a pcs \<Rightarrow> trash_pieces (piece_eq E) a pcs None s
      | Effect_reveal a pc \<Rightarrow> Inr (reveal a pc s)
      | Effect_put a pc \<Rightarrow> put (piece_eq E) a pc None None s
      | Effect_set_aside a pc src \<Rightarrow> set_aside (piece_eq E) a pc src s
      | Effect_topdeck a pc src \<Rightarrow> topdeck (piece_eq E) a pc src s
      | Effect_discard_piece a pc src \<Rightarrow> Inr (discard_piece a pc src s)
      | Effect_discard_pieces a pcs src \<Rightarrow> Inr (discard_pieces a pcs src s)
      | Effect_discard_zone a src \<Rightarrow> Inr (discard_zone a src s)
      | Effect_draw a n \<Rightarrow> draw (shuffle E) a n s
      | Effect_swap_top_cards_of_deck a \<Rightarrow> swap_top_cards_of_deck a s
      | Effect_add_card n \<Rightarrow> add_card (shuffle E) n s
      | Effect_add_action n \<Rightarrow> Inr (add_action n s)
      | Effect_add_buy n \<Rightarrow> Inr (add_buy n s)
      | Effect_add_coin n \<Rightarrow> Inr (add_coin n s)
      | Effect_add_merchant_silver_bonus \<Rightarrow> Inr (add_merchant_silver_bonus s)
      | Effect_add_silver \<Rightarrow> Inr (add_silver s)
      | _ \<Rightarrow> Inr s)"

text \<open>The parts of a Process object: its Effects, its antecedent (over the state and its
  own \<open>immunity\<close> flag) and \<open>clear_internal_state\<close>.\<close>

fun setup_effect :: "process \<Rightarrow> effect option" where
  "setup_effect (LibraryProcess a) = None"
| "setup_effect (MilitiaAttack a) = Some (Initiate a ImmunityProcedure None)"
| "setup_effect (BureaucratAttack a) = Some (Initiate a ImmunityProcedure None)"
| "setup_effect (BanditAttack a) = Some (Initiate a ImmunityProcedure None)"
| "setup_effect (WitchAttack a) = Some (Initiate a ImmunityProcedure None)"

fun main_effect :: "process \<Rightarrow> effect" where
  "main_effect (MilitiaAttack a) = Initiate a MilitiaVictimProcedure None"
| "main_effect (BureaucratAttack a) = Initiate a BureaucratProcedure_class None"
| "main_effect (BanditAttack a) = Initiate a BanditProcedure None"
| "main_effect (WitchAttack a) = Initiate a WitchProcedure None"
| "main_effect (LibraryProcess a) = Initiate a LibraryProcedure None"

fun teardown_effect :: "process \<Rightarrow> effect option" where
  "teardown_effect (LibraryProcess a) = Some (Initiate a LibraryTeardown None)"
| "teardown_effect p = None"

fun antecedent :: "process \<Rightarrow> bool \<Rightarrow> state \<Rightarrow> bool" where
  "antecedent (MilitiaAttack a) immunity s = (\<not> immunity \<and> length (get_zone (Hand a) s) > 3)"
| "antecedent (LibraryProcess a) immunity s = LibraryProcess_antecedent a s"
| "antecedent p immunity s = (\<not> immunity)"

fun clear_internal_state :: "process \<Rightarrow> bool \<Rightarrow> bool" where
  "clear_internal_state (LibraryProcess a) immunity = immunity"
| "clear_internal_state p immunity = False"

text \<open>
  The calls of the resolution loop that can call one another: \<open>enact\<close>, the
  \<open>__call__\<close> of an Effect or Process held by a Consequence, \<open>resolve\<close>,
  \<open>resolve_effects\<close>, \<open>play_piece\<close>, \<open>play_treasures\<close>, \<open>Process.__call__\<close> and its
  \<open>while\<close> loop.
\<close>

datatype call =
    Call_enact "effect list"
  | Call_effect effect
  | Call_resolve nat decision "nat option"
  | Call_resolve_effects nat piece
  | Call_play_piece nat piece "zone option" bool
  | Call_play_treasures nat "piece list"
  | Call_Process process
  | Call_while process

text \<open>
  One step of fuel per call or loop iteration.  The second component of the state pair is
  the \<open>immunity\<close> flag of the Process in whose Subprocess the running Consequence was
  generated.  \<open>Process.__call__\<close> starts its own flag at \<open>False\<close>, as the constructor
  leaves it, runs its Effects on that flag, and returns it beside the state; the caller
  keeps its own.
\<close>

primrec exec :: "nat \<Rightarrow> env \<Rightarrow> call \<Rightarrow> state \<times> bool \<Rightarrow> (state \<times> bool) run" where
  "exec 0 E c st = None"
| "exec (Suc n) E c st =
     (case c of
        Call_enact effs \<Rightarrow>
          (case effs of
             [] \<Rightarrow> Some (Inr st)
           | e # es \<Rightarrow> run_bind (exec n E (Call_effect e) st) (\<lambda>st1. exec n E (Call_enact es) st1))
      | Call_effect e \<Rightarrow>
          (case e of
             Effect_play_piece a pc src free \<Rightarrow> exec n E (Call_play_piece a pc src free) st
           | Effect_play_treasures a pcs \<Rightarrow> exec n E (Call_play_treasures a pcs) st
           | Effect_resolve_effects a pc \<Rightarrow> exec n E (Call_resolve_effects a pc) st
           | Initiate a d decider \<Rightarrow> exec n E (Call_resolve a d decider) st
           | Update_mark_immunity \<Rightarrow> Some (Inr (fst st, True))
           | Process p \<Rightarrow>
               run_bind (exec n E (Call_Process p) st) (\<lambda>st1. Some (Inr (fst st1, snd st)))
           | _ \<Rightarrow> run_bind (Some (apply_function E e (fst st))) (\<lambda>s1. Some (Inr (s1, snd st))))
      | Call_resolve actor d decider \<Rightarrow>
          run_bind
            (Some (request_input E (fst st) actor d
                     (case decider of None \<Rightarrow> actor | Some x \<Rightarrow> x)))
            (\<lambda>cs. exec n E (Call_enact (effects (fst cs))) (snd cs, snd st))
      | Call_resolve_effects actor pc \<Rightarrow>
          run_bind
            (case simple_effects E pc of
               None \<Rightarrow> Some (Inr st)
             | Some effs \<Rightarrow> exec n E (Call_enact effs) st)
            (\<lambda>st1. case piece_decision E pc of
                      None \<Rightarrow> Some (Inr st1)
                    | Some d \<Rightarrow> exec n E (Call_resolve actor d None) st1)
      | Call_play_piece actor pc source free \<Rightarrow>
          (let s1 = (if \<not> free then (fst st)\<lparr>n_action := n_action (fst st) - 1\<rparr> else fst st)
           in run_bind
                (Some (transfer_piece (piece_eq E) pc (Play actor)
                         (case source of None \<Rightarrow> Hand actor | Some z \<Rightarrow> z) s1))
                (\<lambda>s2. exec n E (Call_resolve_effects actor pc) (s2, snd st)))
      | Call_play_treasures actor pieces \<Rightarrow>
          (case pieces of
             [] \<Rightarrow> Some (Inr (end_phase actor TREASURE_PHASE (fst st), snd st))
           | pc # rest \<Rightarrow>
               run_bind (Some (transfer_piece (piece_eq E) pc (Play actor) (Hand actor) (fst st)))
                 (\<lambda>s1. run_bind (exec n E (Call_resolve_effects actor pc) (s1, snd st))
                    (\<lambda>st1. exec n E (Call_play_treasures actor rest) st1)))
      | Call_Process p \<Rightarrow>
          run_bind
            (case setup_effect p of
               None \<Rightarrow> Some (Inr (fst st, False))
             | Some e \<Rightarrow> exec n E (Call_effect e) (fst st, False))
            (\<lambda>st1. run_bind (exec n E (Call_while p) st1)
               (\<lambda>st2. run_bind
                  (case teardown_effect p of
                     None \<Rightarrow> Some (Inr st2)
                   | Some e \<Rightarrow> exec n E (Call_effect e) st2)
                  (\<lambda>st3. Some (Inr (fst st3, clear_internal_state p (snd st3))))))
      | Call_while p \<Rightarrow>
          (if antecedent p (snd st) (fst st) then
             run_bind (exec n E (Call_effect (main_effect p)) st) (\<lambda>st1. exec n E (Call_while p) st1)
           else Some (Inr st)))"

text \<open>The functions of the source, by name.\<close>

definition enact :: "nat \<Rightarrow> env \<Rightarrow> effect list \<Rightarrow> state \<times> bool \<Rightarrow> (state \<times> bool) run" where
  "enact n E effs st = exec n E (Call_enact effs) st"

definition resolve ::
  "nat \<Rightarrow> env \<Rightarrow> nat \<Rightarrow> decision \<Rightarrow> nat option \<Rightarrow> state \<times> bool \<Rightarrow> (state \<times> bool) run" where
  "resolve n E actor d decider st = exec n E (Call_resolve actor d decider) st"

definition resolve_effects ::
  "nat \<Rightarrow> env \<Rightarrow> nat \<Rightarrow> piece \<Rightarrow> state \<times> bool \<Rightarrow> (state \<times> bool) run" where
  "resolve_effects n E actor pc st = exec n E (Call_resolve_effects actor pc) st"

definition play_piece ::
  "nat \<Rightarrow> env \<Rightarrow> nat \<Rightarrow> piece \<Rightarrow> zone option \<Rightarrow> bool \<Rightarrow> state \<times> bool \<Rightarrow> (state \<times> bool) run" where
  "play_piece n E actor pc source free st = exec n E (Call_play_piece actor pc source free) st"

definition play_treasures ::
  "nat \<Rightarrow> env \<Rightarrow> nat \<Rightarrow> piece list \<Rightarrow> state \<times> bool \<Rightarrow> (state \<times> bool) run" where
  "play_treasures n E actor pieces st = exec n E (Call_play_treasures actor pieces) st"

definition Process_call :: "nat \<Rightarrow> env \<Rightarrow> process \<Rightarrow> state \<Rightarrow> (state \<times> bool) run" where
  "Process_call n E p s = exec n E (Call_Process p) (s, False)"

section \<open>Rules and heuristics\<close>

text \<open>\<open>would_defeat\<close> and \<open>would_defeat_or_tie\<close>: \<open>and\<close> evaluates its second operand
  only when the first is true.\<close>

definition would_defeat :: "env \<Rightarrow> state \<Rightarrow> nat \<Rightarrow> nat \<Rightarrow> error + bool" where
  "would_defeat E s plr opponent =
     and_then (actor_lt E s opponent plr) (\<lambda>b.
       if b then and_then (actor_lt E s plr opponent) (\<lambda>b1. Inr (\<not> b1)) else Inr False)"

definition would_defeat_or_tie :: "env \<Rightarrow> state \<Rightarrow> nat \<Rightarrow> nat \<Rightarrow> error + bool" where
  "would_defeat_or_tie E s plr opponent =
     and_then (actor_lt E s plr opponent) (\<lambda>b. Inr (\<not> b))"

text \<open>\<open>modify_collection\<close>: an object without \<open>gained_piece\<close> raises AttributeError
  before anything is appended.\<close>

definition modify_collection :: "nat \<Rightarrow> consequence \<Rightarrow> state \<Rightarrow> error + state" where
  "modify_collection plr acquisition s =
     (case gained_piece acquisition of
        None \<Rightarrow> Inl AttributeError
      | Some g \<Rightarrow>
          (let s1 = upd_player plr (\<lambda>p. p\<lparr>include_list := include_list p @ [g]\<rparr>) s
           in case lost_piece acquisition of
                Some l \<Rightarrow> Inr (upd_player plr (\<lambda>p. p\<lparr>exclude_list := exclude_list p @ [l]\<rparr>) s1)
              | None \<Rightarrow> Inr s1))"

definition revert_collection :: "nat \<Rightarrow> state \<Rightarrow> state" where
  "revert_collection plr s =
     upd_player plr (\<lambda>p. p\<lparr>exclude_list := []\<rparr>) (upd_player plr (\<lambda>p. p\<lparr>include_list := []\<rparr>) s)"

text \<open>\<open>all(f(opponent) for opponent in ...)\<close>: stops at the first false value, and at the
  first exception.\<close>

fun all_of :: "(nat \<Rightarrow> error + bool) \<Rightarrow> nat list \<Rightarrow> error + bool" where
  "all_of f [] = Inr True"
| "all_of f (x # xs) = and_then (f x) (\<lambda>b. if b then all_of f xs else Inr False)"

text \<open>
  \<open>would_win_outright\<close> and \<open>would_win\<close>.  The result comes with the state the call
  leaves behind, also when it raises: the statements run one after the other, with no
  handler around them.
\<close>

definition would_win_outright :: "env \<Rightarrow> nat \<Rightarrow> consequence \<Rightarrow> state \<Rightarrow> (error + bool) \<times> state" where
  "would_win_outright E plr acquisition s =
     (case modify_collection plr acquisition s of
        Inl e \<Rightarrow> (Inl e, s)
      | Inr s1 \<Rightarrow>
          (case all_of (would_defeat E s1 plr) (opponents s1 plr) of
             Inl e \<Rightarrow> (Inl e, s1)
           | Inr result \<Rightarrow> (Inr result, revert_collection plr s1)))"

definition would_win :: "env \<Rightarrow> nat \<Rightarrow> consequence \<Rightarrow> state \<Rightarrow> (error + bool) \<times> state" where
  "would_win E plr acquisition s =
     (case modify_collection plr acquisition s of
        Inl e \<Rightarrow> (Inl e, s)
      | Inr s1 \<Rightarrow>
          (case all_of (would_defeat_or_tie E s1 plr) (opponents s1 plr) of
             Inl e \<Rightarrow> (Inl e, s1)
           | Inr result \<Rightarrow> (Inr result, revert_collection plr s1)))"

section \<open>The pieces in circulation\<close>

definition player_pieces :: "player \<Rightarrow> piece multiset" where
  "player_pieces p = mset (HAND p) + mset (DECK p) + mset (DISCARD p) + mset (PLAY p) + mset (ASIDE p)"

text \<open>Every Piece instance in a zone of a player, in a Supply pile or in the trash, with
  its multiplicity.\<close>

definition all_pieces :: "state \<Rightarrow> piece multiset" where
  "all_pieces s =
     sum_list (map player_pieces (players s)) + sum_list (map mset (piles s)) + mset (TRASH s)"

text \<open>Two states have the same zones: the same players' HAND, DECK, DISCARD, PLAY and ASIDE,
  the same Supply piles and the same trash.\<close>

definition same_zones :: "state \<Rightarrow> state \<Rightarrow> bool" where
  "same_zones s1 s \<longleftrightarrow>
     length (players s1) = length (players s) \<and>
     (\<forall>i < length (players s).
        HAND (players s1 ! i) = HAND (players s ! i) \<and> DECK (players s1 ! i) = DECK (players s ! i) \<and>
        DISCARD (players s1 ! i) = DISCARD (players s ! i) \<and> PLAY (players s1 ! i) = PLAY (players s ! i) \<and>
        ASIDE (players s1 ! i) = ASIDE (players s ! i)) \<and>
     piles s1 = piles s \<and> TRASH s1 = TRASH s"

section \<open>Well-formed references\<close>

text \<open>
  An Effect built by the engine refers to actors and zones of the game it is applied to.
  With \<open>np\<close> players and \<open>npl\<close> Supply piles, a zone reference is in range when its
  list exists, and an Effect is well-formed when the actors and zones it names are in
  range; \<open>discard_zone\<close> is bound by the engine to the set-aside zone only, never to the
  discard pile it extends.
\<close>

definition zone_ok :: "nat \<Rightarrow> nat \<Rightarrow> zone \<Rightarrow> bool" where
  "zone_ok np npl z =
     (case z of Hand a \<Rightarrow> a < np | Deck a \<Rightarrow> a < np | Discard a \<Rightarrow> a < np | Play a \<Rightarrow> a < np
      | Aside a \<Rightarrow> a < np | Trash \<Rightarrow> True | Pile i \<Rightarrow> i < npl)"

definition zone_opt_ok :: "nat \<Rightarrow> nat \<Rightarrow> zone option \<Rightarrow> bool" where
  "zone_opt_ok np npl z = (case z of None \<Rightarrow> True | Some x \<Rightarrow> zone_ok np npl x)"

fun process_actor :: "process \<Rightarrow> nat" where
  "process_actor (MilitiaAttack a) = a"
| "process_actor (BureaucratAttack a) = a"
| "process_actor (BanditAttack a) = a"
| "process_actor (WitchAttack a) = a"
| "process_actor (LibraryProcess a) = a"

definition well_formed :: "nat \<Rightarrow> nat \<Rightarrow> effect \<Rightarrow> bool" where
  "well_formed np npl e =
     (case e of
        Effect_end_phase a ph \<Rightarrow> a < np
      | Effect_do_nothing a \<Rightarrow> a < np
      | Effect_play_piece a pc src free \<Rightarrow> a < np \<and> zone_opt_ok np npl src
      | Effect_buy_piece a pc \<Rightarrow> a < np
      | Effect_gain a pc dst \<Rightarrow> a < np \<and> zone_opt_ok np npl dst
      | Effect_trash a pc src \<Rightarrow> a < np \<and> zone_opt_ok np npl src
      | Effect_trash_pieces a pcs \<Rightarrow> a < np
      | Effect_reveal a pc \<Rightarrow> a < np
      | Effect_put a pc \<Rightarrow> a < np
      | Effect_set_aside a pc src \<Rightarrow> a < np \<and> zone_ok np npl src
      | Effect_topdeck a pc src \<Rightarrow> a < np \<and> zone_ok np npl src
      | Effect_discard_piece a pc src \<Rightarrow> a < np \<and> zone_opt_ok np npl src
      | Effect_discard_pieces a pcs src \<Rightarrow> a < np \<and> zone_opt_ok np npl src
      | Effect_discard_zone a src \<Rightarrow> a < np \<and> zone_ok np npl src \<and> src \<noteq> Discard a
      | Effect_draw a n \<Rightarrow> a < np
      | Effect_swap_top_cards_of_deck a \<Rightarrow> a < np
      | Effect_play_treasures a pcs \<Rightarrow> a < np
      | Effect_resolve_effects a pc \<Rightarrow> a < np
      | Initiate a d decider \<Rightarrow> a < np
      | Process p \<Rightarrow> process_actor p < np
      | _ \<Rightarrow> True)"

definition state_ok :: "nat \<Rightarrow> nat \<Rightarrow> state \<Rightarrow> bool" where
  "state_ok np npl s \<longleftrightarrow> length (players s) = np \<and> length (piles s) = npl \<and> current_player s < np"

definition env_ok :: "nat \<Rightarrow> nat \<Rightarrow> env \<Rightarrow> bool" where
  "env_ok np npl E \<longleftrightarrow>
     (\<forall>xs. mset (shuffle E xs) = mset xs) \<and>
     (\<forall>pc effs. simple_effects E pc = Some effs \<longrightarrow> list_all (well_formed np npl) effs) \<and>
     (\<forall>decider s choices d c. select E decider s choices d = Inr c \<longrightarrow> c \<in> set choices)"

text \<open>The choices of a Decision are well-formed when all their Effects are.\<close>

definition wf_choices :: "nat \<Rightarrow> nat \<Rightarrow> consequence list \<Rightarrow> bool" where
  "wf_choices np npl cs \<longleftrightarrow> (\<forall>c\<in>set cs. \<forall>e\<in>set (effects c). well_formed np npl e)"

text \<open>A call of the resolution loop is in range when its Effects and actors are.\<close>

definition call_ok :: "nat \<Rightarrow> nat \<Rightarrow> call \<Rightarrow> bool" where
  "call_ok np npl c =
     (case c of
        Call_enact effs \<Rightarrow> (\<forall>e\<in>set effs. well_formed np npl e)
      | Call_effect e \<Rightarrow> well_formed np npl e
      | Call_resolve a d decider \<Rightarrow> a < np
      | Call_resolve_effects a pc \<Rightarrow> a < np
      | Call_play_piece a pc src free \<Rightarrow> a < np \<and> zone_opt_ok np npl src
      | Call_play_treasures a pcs \<Rightarrow> a < np
      | Call_Process p \<Rightarrow> process_actor p < np
      | Call_while p \<Rightarrow> process_actor p < np)"

section \<open>Example data\<close>

text \<open>Concrete pieces and states on which the theorems below are instantiated.\<close>

definition mk_piece :: "nat \<Rightarrow> string \<Rightarrow> int \<Rightarrow> bool \<Rightarrow> bool \<Rightarrow> bool \<Rightarrow> bool \<Rightarrow> nat \<Rightarrow> piece" where
  "mk_piece i nm c act tre vic prov toi =
     \<lparr>uid = i, name = nm, cost = c, is_action = act, is_treasure = tre, is_victory = vic,
      is_province = prov, total_order_index = toi\<rparr>"

definition Estate :: "nat \<Rightarrow> piece" where
  "Estate i = mk_piece i ''Estate'' 2 False False True False 1"

definition Province :: "nat \<Rightarrow> piece" where
  "Province i = mk_piece i ''Province'' 8 False False True True 3"

definition Copper :: "nat \<Rightarrow> piece" where
  "Copper i = mk_piece i ''Copper'' 0 False True False False 4"

definition Silver :: "nat \<Rightarrow> piece" where
  "Silver i = mk_piece i ''Silver'' 3 False True False False 5"

definition Moat :: "nat \<Rightarrow> piece" where
  "Moat i = mk_piece i ''Moat'' 2 True False False False 7"

definition mk_player :: "piece list \<Rightarrow> piece list \<Rightarrow> piece list \<Rightarrow> player" where
  "mk_player h d dis =
     \<lparr>HAND = h, DECK = d, DISCARD = dis, PLAY = [], ASIDE = [], include_list = [],
      exclude_list = [], actor_repr = ''Strategy''\<rparr>"

definition mk_state :: "player list \<Rightarrow> piece list list \<Rightarrow> state" where
  "mk_state ps pls =
     \<lparr>players = ps, piles = pls, TRASH = [], n_action = 1, n_buy = 1, n_coin = 0,
      n_silver_played_this_turn = 0, merchant_silver_bonus = 0, need_action_phase = True,
      need_treasure_phase = True, need_buy_phase = True, n_empty_piles = 0,
      province_pile_empty = False, current_player = 0\<rparr>"

text \<open>One player with a one-card deck and a two-card discard pile; empty Supply.\<close>

definition ex_short_deck :: state where
  "ex_short_deck = mk_state [mk_player [] [Copper 1] [Estate 2, Silver 3]] []"

text \<open>One player; the only non-empty Supply pile holds one Province; 8 coins, 1 buy.\<close>

definition ex_buy :: state where
  "ex_buy = (mk_state [mk_player [] [] [Copper 1]] [[], [], [], [Province 9]])\<lparr>n_coin := 8\<rparr>"

text \<open>An environment: equality by type, the shuffle reverses, every decider takes the last
  choice offered, no card has effects of its own, no actor ranks below another.\<close>

definition ex_env :: env where
  "ex_env =
     \<lparr>piece_eq = (\<lambda>p q. total_order_index p = total_order_index q),
      shuffle = rev,
      select = (\<lambda>decider s choices d. if choices = [] then Inl IndexError else Inr (last choices)),
      simple_effects = (\<lambda>pc. None),
      piece_decision = (\<lambda>pc. None),
      actor_lt = (\<lambda>s a b. Inr False)\<rparr>"


definition Gold :: "nat \<Rightarrow> piece" where
  "Gold i = mk_piece i ''Gold'' 6 False True False False 6"

text \<open>One player whose deck has a Gold on top of a Silver.\<close>

definition ex_sentry :: state where
  "ex_sentry = mk_state [mk_player [] [Silver 3, Gold 4] []] []"

text \<open>Two players; the second has neither deck nor discard pile, and no Moat in hand.\<close>

definition ex_bandit :: state where
  "ex_bandit = mk_state [mk_player [] [] [], mk_player [Copper 5] [] []] []"

text \<open>Two players; the second holds five cards, two of them Moats.\<close>

definition ex_moat :: state where
  "ex_moat = mk_state [mk_player [] [] [],
                       mk_player [Copper 5, Moat 6, Estate 7, Copper 8, Moat 9] [Silver 3] []] []"

text \<open>Two players and a last Province; a ranking that raises; the Purchase of the Province.\<close>

definition ex_two :: state where
  "ex_two = mk_state [mk_player [Copper 1] [Estate 2] [], mk_player [Copper 5] [] []] [[], [], [], [Province 9]]"

definition ex_env_raising :: env where
  "ex_env_raising = ex_env\<lparr>actor_lt := (\<lambda>s a b. Inl TypeError)\<rparr>"

definition ex_acquisition :: consequence where
  "ex_acquisition =
     \<lparr>cclass = Purchase_class, effects = [Effect_buy_piece 0 (Province 9)], custom_message = None,
      action = None, gained_piece = Some (Province 9), lost_piece = None\<rparr>"

section \<open>Basic facts about the primitives\<close>

lemma player_upd_sort [simp]:
  "HAND_update g (DECK_update f p) = DECK_update f (HAND_update g p)"
  "HAND_update g (DISCARD_update f p) = DISCARD_update f (HAND_update g p)"
  "HAND_update g (PLAY_update f p) = PLAY_update f (HAND_update g p)"
  "HAND_update g (ASIDE_update f p) = ASIDE_update f (HAND_update g p)"
  "DECK_update g (DISCARD_update f p) = DISCARD_update f (DECK_update g p)"
  "DECK_update g (PLAY_update f p) = PLAY_update f (DECK_update g p)"
  "DECK_update g (ASIDE_update f p) = ASIDE_update f (DECK_update g p)"
  "DISCARD_update g (PLAY_update f p) = PLAY_update f (DISCARD_update g p)"
  "DISCARD_update g (ASIDE_update f p) = ASIDE_update f (DISCARD_update g p)"
  "PLAY_update g (ASIDE_update f p) = ASIDE_update f (PLAY_update g p)"
  by (cases p; simp)+

lemma transfer_all_eq: "transfer_all d src = (d @ rev src, [])"
proof (induction d src rule: transfer_all.induct)
  case (1 d src)
  show ?case
  proof (cases "src = []")
    case True
    then show ?thesis by (simp add: transfer_all.simps)
  next
    case False
    have "transfer_all d src = transfer_all (d @ [last src]) (butlast src)"
      using False by (subst transfer_all.simps) simp
    also have "\<dots> = ((d @ [last src]) @ rev (butlast src), [])"
      using "1" False by simp
    also have "(d @ [last src]) @ rev (butlast src) = d @ rev src"
      using False by (cases src rule: rev_cases) simp_all
    finally show ?thesis .
  qed
qed

lemma replenish_deck_eq:
  assumes "a < length (players s)"
  shows "replenish_deck sh a s =
         s\<lparr>players := (players s)[a := (players s ! a)
              \<lparr>DECK := sh (DISCARD (players s ! a)) @ DECK (players s ! a), DISCARD := []\<rparr>]\<rparr>"
  using assms
  by (simp add: replenish_deck_def transfer_all_eq upd_player_def)

lemma transfer_top_pieces_eq:
  assumes "a < length (players s)" and "k \<le> length (DECK (players s ! a))"
  shows "transfer_top_pieces k (Hand a) (Deck a) s =
         Inr (s\<lparr>players := (players s)[a := (players s ! a)
              \<lparr>HAND := HAND (players s ! a) @ rev (drop (length (DECK (players s ! a)) - k) (DECK (players s ! a))),
               DECK := take (length (DECK (players s ! a)) - k) (DECK (players s ! a))\<rparr>]\<rparr>)"
  using assms
proof (induction k arbitrary: s)
  case 0
  then show ?case by (simp add: list_update_same_conv)
next
  case (Suc k)
  let ?p = "players s ! a"
  let ?d = "DECK ?p"
  have ne: "?d \<noteq> []" using Suc.prems by auto
  define s1 where "s1 = s\<lparr>players := (players s)[a := ?p\<lparr>HAND := HAND ?p @ [last ?d], DECK := butlast ?d\<rparr>]\<rparr>"
  have step: "transfer_top_piece (Hand a) (Deck a) s = Inr s1"
    using Suc.prems ne by (simp add: transfer_top_piece_def upd_player_def s1_def Let_def)
  have a1: "a < length (players s1)" using Suc.prems by (simp add: s1_def)
  have p1: "players s1 ! a = ?p\<lparr>HAND := HAND ?p @ [last ?d], DECK := butlast ?d\<rparr>"
    using Suc.prems by (simp add: s1_def)
  have k1: "k \<le> length (DECK (players s1 ! a))" using Suc.prems by (simp add: p1)
  obtain ys y where d: "?d = ys @ [y]" using ne by (cases ?d rule: rev_cases) auto
  have kl: "k \<le> length ys" using Suc.prems(2) d by simp
  have dr: "drop (length ?d - Suc k) ?d = drop (length ?d - Suc k) (butlast ?d) @ [last ?d]"
    using kl by (simp add: d)
  have tk: "take (length ?d - Suc k) (butlast ?d) = take (length ?d - Suc k) ?d"
    using kl by (simp add: d)
  show ?case
    using Suc.IH[OF a1 k1] step
    apply (simp add: and_then_def p1 dr)
    apply (simp add: s1_def tk)
    done
qed

lemma prepare_deck_length [simp]: "length (players (prepare_deck sh a n s)) = length (players s)"
  by (simp add: prepare_deck_def replenish_deck_def upd_player_def Let_def split: prod.splits)

section \<open>Replenishing the deck and drawing\<close>

text \<open>
  Claim C9.  \<open>replenish_deck\<close> keeps the cards already in the deck on top of it (at the
  end of the list) in their order, puts the former discard pile beneath them in the order
  the shuffle gives (a permutation of it whenever the shuffle permutes its argument), and
  empties the discard pile.  The result is the old state with the actor's DECK and DISCARD
  replaced: no other zone, pile or counter differs.
\<close>

theorem replenish_deck_spec:
  assumes "a < length (players s)"
    and "mset (sh (DISCARD (players s ! a))) = mset (DISCARD (players s ! a))"
  shows "\<exists>beneath. mset beneath = mset (DISCARD (players s ! a)) \<and>
           replenish_deck sh a s =
             s\<lparr>players := (players s)[a := (players s ! a)
                  \<lparr>DECK := beneath @ DECK (players s ! a), DISCARD := []\<rparr>]\<rparr>"
  using assms replenish_deck_eq [of a s sh] by blast

theorem replenish_deck_spec_witness:
  "\<exists>beneath. mset beneath = mset [Estate 2, Silver 3] \<and>
     replenish_deck rev 0 ex_short_deck =
       mk_state [mk_player [] (beneath @ [Copper 1]) []] []"
proof -
  have a: "0 < length (players ex_short_deck)"
    by (simp add: ex_short_deck_def mk_state_def)
  have m: "mset (rev (DISCARD (players ex_short_deck ! 0))) = mset (DISCARD (players ex_short_deck ! 0))"
    by simp
  show ?thesis
    using replenish_deck_spec [of 0 ex_short_deck rev] a m
    by (simp add: ex_short_deck_def mk_state_def mk_player_def)
qed

text \<open>
  Claim C8.  For every actor of the game and every requested count \<open>n\<close> (negative ones
  included), \<open>draw\<close> returns normally.  With \<open>s1\<close> the state after \<open>prepare_deck\<close>
  (which replenishes exactly when the deck holds fewer than \<open>n\<close> cards and the discard
  pile is not empty) and \<open>k = min(n, len(DECK))\<close> there, the top \<open>k\<close> cards of the deck
  are appended to the hand, top card first, and removed from the deck; nothing else
  differs from \<open>s1\<close>.
\<close>

theorem draw_never_fails:
  assumes "a < length (players s)"
  shows "(let s1 = prepare_deck sh a n s;
              p1 = players s1 ! a;
              d = DECK p1;
              k = nat (min n (int (length d)))
          in prepare_deck sh a n s =
               (if int (length (DECK (players s ! a))) < n \<and> DISCARD (players s ! a) \<noteq> []
                then replenish_deck sh a s else s)
           \<and> k = (if n < 0 then 0 else min (nat n) (length d))
           \<and> draw sh a n s =
               Inr (s1\<lparr>players := (players s1)[a := p1
                     \<lparr>HAND := HAND p1 @ rev (drop (length d - k) d),
                      DECK := take (length d - k) d\<rparr>]\<rparr>))"
proof -
  let ?s1 = "prepare_deck sh a n s"
  let ?d = "DECK (players ?s1 ! a)"
  let ?k = "nat (min n (int (length ?d)))"
  have a1: "a < length (players ?s1)" using assms by simp
  have kl: "?k \<le> length ?d" by simp
  have pd: "prepare_deck sh a n s =
      (if int (length (DECK (players s ! a))) < n \<and> DISCARD (players s ! a) \<noteq> []
       then replenish_deck sh a s else s)"
    by (auto simp: prepare_deck_def validate_deck_size_def)
  have kk: "?k = (if n < 0 then 0 else min (nat n) (length ?d))"
    by (auto simp: min_def)
  have "draw sh a n s = transfer_top_pieces ?k (Hand a) (Deck a) ?s1"
    by (simp add: draw_def Let_def)
  also have "\<dots> = Inr (?s1\<lparr>players := (players ?s1)[a := (players ?s1 ! a)
                     \<lparr>HAND := HAND (players ?s1 ! a) @ rev (drop (length ?d - ?k) ?d),
                      DECK := take (length ?d - ?k) ?d\<rparr>]\<rparr>)"
    by (rule transfer_top_pieces_eq [OF a1 kl])
  finally have dr: "draw sh a n s = Inr (?s1\<lparr>players := (players ?s1)[a := (players ?s1 ! a)
                     \<lparr>HAND := HAND (players ?s1 ! a) @ rev (drop (length ?d - ?k) ?d),
                      DECK := take (length ?d - ?k) ?d\<rparr>]\<rparr>)" .
  show ?thesis
    unfolding Let_def by (intro conjI) (rule pd, rule kk, rule dr)
qed

theorem draw_never_fails_witness:
  "draw rev 0 5 ex_short_deck =
     Inr (mk_state [mk_player [Copper 1, Estate 2, Silver 3] [] []] [])"
proof -
  have a: "0 < length (players ex_short_deck)"
    by (simp add: ex_short_deck_def mk_state_def)
  have r: "replenish_deck rev 0 ex_short_deck = mk_state [mk_player [] [Silver 3, Estate 2, Copper 1] []] []"
    by (simp add: replenish_deck_eq [OF a]) (simp add: ex_short_deck_def mk_state_def mk_player_def)
  show ?thesis
    using draw_never_fails [OF a, of rev 5]
    by (simp add: Let_def r) (simp add: ex_short_deck_def mk_state_def mk_player_def)
qed

section \<open>Phases\<close>

text \<open>
  Claim C10.  Enacting a PassOption, whose single Effect is \<open>end_phase\<close>, yields for the
  Action phase the state with \<open>need_action_phase\<close> false and \<open>n_action\<close> zero, for the
  Treasure phase the state with \<open>need_treasure_phase\<close> false, and for the Buy phase the
  state with \<open>need_buy_phase\<close> false and \<open>n_buy\<close> zero.  The result is the old state
  record with exactly these fields replaced, so every other counter and flag and every
  zone is as before.  Two units of fuel are enough.
\<close>

theorem PassOption_end_phase:
  "enact (Suc (Suc m)) E (effects (PassOption actor ACTION_PHASE)) (s, f) =
     Some (Inr (s\<lparr>need_action_phase := False, n_action := 0\<rparr>, f))
   \<and> enact (Suc (Suc m)) E (effects (PassOption actor TREASURE_PHASE)) (s, f) =
     Some (Inr (s\<lparr>need_treasure_phase := False\<rparr>, f))
   \<and> enact (Suc (Suc m)) E (effects (PassOption actor BUY_PHASE)) (s, f) =
     Some (Inr (s\<lparr>need_buy_phase := False, n_buy := 0\<rparr>, f))"
  by (simp add: enact_def PassOption_def Consequence_def run_bind_def apply_function_def end_phase_def)

section \<open>The Buy phase\<close>

lemma filter_single_pile:
  assumes "i < n" and "Q [pc]" and "\<not> Q []"
  shows "filter Q ((replicate n ([]::piece list))[i := [pc]]) = [[pc]]"
proof -
  have "(replicate n ([]::piece list))[i := [pc]] = replicate i [] @ [pc] # replicate (n - Suc i) []"
    using assms(1) by (simp add: upd_conv_take_nth_drop)
  then show ?thesis using assms(2,3) by simp
qed

lemma replicate_update_same: "(replicate n x)[i := x] = replicate n x"
proof (cases "i < n")
  case True
  show ?thesis by (rule nth_equalityI) (use True in \<open>auto simp: nth_list_update\<close>)
next
  case False
  then have "length (replicate n x) \<le> i" by simp
  then show ?thesis by (rule list_update_beyond)
qed

lemma collect_map_Inr: "collect (map (\<lambda>x. Inr (g x)) xs) = Inr (map g xs)"
  by (induction xs) (simp_all add: and_then_def)

lemma Purchase_eq:
  "Purchase actor pc =
     Inr \<lparr>cclass = Purchase_class, effects = [Effect_buy_piece actor pc], custom_message = None,
          action = None, gained_piece = Some pc, lost_piece = None\<rparr>"
  by (simp add: Purchase_def Acquisition_def and_then_def Consequence_def)

lemma Purchase_fun:
  "Purchase actor =
     (\<lambda>pc. Inr \<lparr>cclass = Purchase_class, effects = [Effect_buy_piece actor pc], custom_message = None,
          action = None, gained_piece = Some pc, lost_piece = None\<rparr>)"
  by (rule ext) (rule Purchase_eq)

lemma BuyChoices_eq:
  "BuyChoices_generate_choices s actor =
     Inr (PassOption actor BUY_PHASE #
          (if n_buy s \<noteq> 0 then
             map (\<lambda>pc. \<lparr>cclass = Purchase_class, effects = [Effect_buy_piece actor pc],
                         custom_message = None, action = None, gained_piece = Some pc,
                         lost_piece = None\<rparr>)
               (filter_supply (\<lambda>x. cost x \<le> n_coin s) s)
           else []))"
  by (simp add: BuyChoices_generate_choices_def Purchase_fun collect_map_Inr and_then_def)

lemma buy_piece_single_pile:
  assumes "actor < length (players s)"
    and "total_order_index pc < n"
    and "piles s = (replicate n [])[total_order_index pc := [pc]]"
    and "is_province pc"
  shows "enact (Suc (Suc m)) E [Effect_buy_piece actor pc] (s, f) =
     Some (Inr (s\<lparr>n_buy := n_buy s - 1, n_coin := n_coin s - cost pc,
            piles := replicate n [],
            players := (players s)[actor := (players s ! actor)
                 \<lparr>DISCARD := DISCARD (players s ! actor) @ [pc]\<rparr>],
            n_empty_piles := n_empty_piles s + 1,
            province_pile_empty := True\<rparr>, f))"
  using assms
  by (simp add: enact_def run_bind_def apply_function_def buy_piece_def pay_cost_def handle_acquisition_def
    transfer_piece_def and_then_def upd_player_def Let_def replicate_update_same)

lemma BuyChoices_general:
  "\<exists>ps. BuyChoices_generate_choices s0 a0 = Inr (PassOption a0 BUY_PHASE # ps) \<and>
         (n_buy s0 = 0 \<longrightarrow> ps = []) \<and>
         (\<forall>c\<in>set ps. \<exists>p pile. Purchase a0 p = Inr c \<and> pile \<in> set (piles s0) \<and> pile \<noteq> [] \<and>
              p = last pile \<and> cost p \<le> n_coin s0)"
  by (auto simp: BuyChoices_eq Purchase_eq filter_supply_def)


text \<open>
  Claim C4.  With 8 coins and 1 buy, when the Supply's only non-empty pile is the pile of
  a Province \<open>pc\<close> holding just that card (at the index the card names) and the Province
  costs at most 8, the Buy Decision offers exactly the PassOption followed by the Purchase
  of \<open>pc\<close>.  Enacting the Purchase takes one buy and the cost in coins, moves \<open>pc\<close> from
  its pile to the end of the actor's DISCARD, adds one to \<open>n_empty_piles\<close> and sets
  \<open>province_pile_empty\<close>.  In any state the PassOption comes first, there is no Purchase
  when \<open>n_buy\<close> is zero, and every Purchase is of the top piece of a pile whose cost is
  at most \<open>n_coin\<close>.
\<close>

theorem buy_province_scenario:
  assumes "actor < length (players s)" and "n_coin s = 8" and "n_buy s = 1"
    and "total_order_index pc < n"
    and "piles s = (replicate n [])[total_order_index pc := [pc]]"
    and "is_province pc" and "cost pc \<le> 8"
  shows "(\<exists>purchase.
           Purchase actor pc = Inr purchase \<and> cclass purchase = Purchase_class \<and>
           gained_piece purchase = Some pc \<and>
           expand_choices sh s actor BuyChoices = Inr ([PassOption actor BUY_PHASE, purchase], s) \<and>
           (\<forall>m E f. enact (Suc (Suc m)) E (effects purchase) (s, f) =
              Some (Inr (s\<lparr>n_buy := n_buy s - 1, n_coin := n_coin s - cost pc,
                     piles := replicate n [],
                     players := (players s)[actor := (players s ! actor)
                        \<lparr>DISCARD := DISCARD (players s ! actor) @ [pc]\<rparr>],
                     n_empty_piles := n_empty_piles s + 1,
                     province_pile_empty := True\<rparr>, f))))
       \<and> (\<forall>s0 a0. \<exists>ps. BuyChoices_generate_choices s0 a0 = Inr (PassOption a0 BUY_PHASE # ps) \<and>
              (n_buy s0 = 0 \<longrightarrow> ps = []) \<and>
              (\<forall>c\<in>set ps. \<exists>p pile. Purchase a0 p = Inr c \<and> pile \<in> set (piles s0) \<and>
                   pile \<noteq> [] \<and> p = last pile \<and> cost p \<le> n_coin s0))"
proof -
  have fs: "filter_supply (\<lambda>x. cost x \<le> n_coin s) s = [pc]"
    unfolding filter_supply_def using assms(2,4,7) by (simp add: assms(5) filter_single_pile)
  have ch: "expand_choices sh s actor BuyChoices =
      Inr ([PassOption actor BUY_PHASE,
            \<lparr>cclass = Purchase_class, effects = [Effect_buy_piece actor pc], custom_message = None,
             action = None, gained_piece = Some pc, lost_piece = None\<rparr>], s)"
    using assms(3) by (simp add: expand_choices_def BuyChoices_eq fs and_then_def)
  have scenario: "\<exists>purchase.
           Purchase actor pc = Inr purchase \<and> cclass purchase = Purchase_class \<and>
           gained_piece purchase = Some pc \<and>
           expand_choices sh s actor BuyChoices = Inr ([PassOption actor BUY_PHASE, purchase], s) \<and>
           (\<forall>m E f. enact (Suc (Suc m)) E (effects purchase) (s, f) =
              Some (Inr (s\<lparr>n_buy := n_buy s - 1, n_coin := n_coin s - cost pc,
                     piles := replicate n [],
                     players := (players s)[actor := (players s ! actor)
                        \<lparr>DISCARD := DISCARD (players s ! actor) @ [pc]\<rparr>],
                     n_empty_piles := n_empty_piles s + 1,
                     province_pile_empty := True\<rparr>, f)))"
    using ch buy_piece_single_pile [OF assms(1,4,5,6)]
    by (simp add: Purchase_eq)
  show ?thesis
    using scenario BuyChoices_general by blast
qed

theorem buy_province_scenario_witness:
  "\<exists>purchase.
     Purchase 0 (Province 9) = Inr purchase \<and>
     expand_choices rev ex_buy 0 BuyChoices = Inr ([PassOption 0 BUY_PHASE, purchase], ex_buy) \<and>
     enact 2 ex_env (effects purchase) (ex_buy, False) =
       Some (Inr ((mk_state [mk_player [] [] [Copper 1, Province 9]] [[], [], [], []])
          \<lparr>n_buy := 0, n_coin := 0, n_empty_piles := 1, province_pile_empty := True\<rparr>, False))"
proof -
  have 1: "0 < length (players ex_buy)" "n_coin ex_buy = 8" "n_buy ex_buy = 1"
      "total_order_index (Province 9) < 4"
      "piles ex_buy = (replicate 4 [])[total_order_index (Province 9) := [Province 9]]"
      "is_province (Province 9)" "cost (Province 9) \<le> 8"
    by (simp_all add: ex_buy_def mk_state_def Province_def mk_piece_def numeral_eq_Suc)
  from buy_province_scenario [OF 1, of rev, THEN conjunct1] obtain purchase where
    p: "Purchase 0 (Province 9) = Inr purchase"
    and c: "expand_choices rev ex_buy 0 BuyChoices = Inr ([PassOption 0 BUY_PHASE, purchase], ex_buy)"
    and e: "\<forall>m E f. enact (Suc (Suc m)) E (effects purchase) (ex_buy, f) =
              Some (Inr (ex_buy\<lparr>n_buy := n_buy ex_buy - 1, n_coin := n_coin ex_buy - cost (Province 9),
                     piles := replicate 4 [],
                     players := (players ex_buy)[0 := (players ex_buy ! 0)
                        \<lparr>DISCARD := DISCARD (players ex_buy ! 0) @ [Province 9]\<rparr>],
                     n_empty_piles := n_empty_piles ex_buy + 1,
                     province_pile_empty := True\<rparr>, f))"
    by blast
  have "enact 2 ex_env (effects purchase) (ex_buy, False) =
      Some (Inr ((mk_state [mk_player [] [] [Copper 1, Province 9]] [[], [], [], []])
                 \<lparr>n_buy := 0, n_coin := 0, n_empty_piles := 1, province_pile_empty := True\<rparr>, False))"
    using e [rule_format, of 0 ex_env False]
    by (simp add: numeral_2_eq_2) (simp add: ex_buy_def mk_state_def mk_player_def Province_def mk_piece_def numeral_eq_Suc)
  with p c show ?thesis by blast
qed

section \<open>Decisions that raise\<close>

text \<open>
  Claim C1.  The claim asks every Decision to return a non-empty list.  In the code
  \<open>WitchProcedure.generate_choices\<close> and \<open>BureaucratProcedure.generate_choices\<close> append to
  a list \<open>choices\<close> that they never create: in every state and for every actor the call
  raises NameError and returns no list at all.
\<close>

theorem WitchProcedure_BureaucratProcedure_raise:
  "expand_choices sh s actor WitchProcedure = Inl (NameError ''choices'')
   \<and> expand_choices sh s actor BureaucratProcedure = Inl (NameError ''choices'')"
  by (simp add: expand_choices_def WitchProcedure_generate_choices_def
        BureaucratProcedure_generate_choices_def and_then_def Let_def)

lemma SentryChoices_raises:
  "get_zone (Deck actor) (prepare_deck sh actor 2 s) \<noteq> [] \<Longrightarrow>
     expand_choices sh s actor SentryChoices = Inl (NameError ''discard'')"
  by (simp add: expand_choices_def SentryChoices_generate_choices_def Let_def)

text \<open>
  Claim C7.  The claim lists the options Sentry must offer for two distinct top cards.  In
  the code \<open>SentryChoices.generate_choices\<close> raises NameError (\<open>discard\<close>) as soon as the
  deck holds a card; here with a Gold on top of a Silver.
\<close>

theorem SentryChoices_two_distinct_top_cards_raises:
  "expand_choices rev ex_sentry 0 SentryChoices = Inl (NameError ''discard'')"
  by (rule SentryChoices_raises)
     (simp add: ex_sentry_def mk_state_def mk_player_def prepare_deck_def validate_deck_size_def)

section \<open>Attacks\<close>

lemma bandit_main_step:
  assumes "v < length (players s)"
    and "DECK (players s ! v) = []" and "DISCARD (players s ! v) = []"
    and sel: "select E v s [NullOption v None] BanditProcedure = Inr (NullOption v None)"
  shows "exec k E (Call_effect (Initiate v BanditProcedure None)) (s, imm) = None
         \<or> exec k E (Call_effect (Initiate v BanditProcedure None)) (s, imm) = Some (Inr (s, imm))"
proof -
  have ch: "expand_choices (shuffle E) s v BanditProcedure = Inr ([NullOption v None], s)"
    using assms(1,2,3)
    by (simp add: expand_choices_def BanditProcedure_generate_choices_def prepare_deck_def
          validate_deck_size_def Let_def)
  have ri: "request_input E s v BanditProcedure v = Inr (NullOption v None, s)"
    using sel by (simp add: request_input_def ch and_then_def)
  have "k = 0 \<or> k = Suc 0 \<or> k = Suc (Suc 0) \<or> k = Suc (Suc (Suc 0))
        \<or> (\<exists>j. k = Suc (Suc (Suc (Suc j))))"
    by arith
  then show ?thesis
    by (elim disjE exE)
       (simp_all add: ri run_bind_def NullOption_def Consequence_def apply_function_def do_nothing_def)
qed

lemma bandit_while_diverges:
  assumes "v < length (players s)"
    and "DECK (players s ! v) = []" and "DISCARD (players s ! v) = []"
    and sel: "select E v s [NullOption v None] BanditProcedure = Inr (NullOption v None)"
  shows "exec n E (Call_while (BanditAttack v)) (s, False) = None"
proof (induction n)
  case 0
  show ?case by simp
next
  case (Suc n)
  from bandit_main_step [OF assms, of n False]
  show ?case using Suc by (auto simp: run_bind_def)
qed



lemma immunity_step_no_moat:
  assumes "filter (\<lambda>x. name x = ''Moat'') (HAND (players s ! v)) = []"
    and sel: "select E v s [NullOption v (Some failure_message)] ImmunityProcedure =
                Inr (NullOption v (Some failure_message))"
  shows "exec k E (Call_effect (Initiate v ImmunityProcedure None)) (s, imm) = None
         \<or> exec k E (Call_effect (Initiate v ImmunityProcedure None)) (s, imm) = Some (Inr (s, imm))"
proof -
  have ch: "expand_choices (shuffle E) s v ImmunityProcedure =
              Inr ([NullOption v (Some failure_message)], s)"
    using assms(1)
    by (simp add: expand_choices_def ImmunityProcedure_generate_choices_def get_pieces_def)
  have ri: "request_input E s v ImmunityProcedure v = Inr (NullOption v (Some failure_message), s)"
    using sel by (simp add: request_input_def ch and_then_def)
  have "k = 0 \<or> k = Suc 0 \<or> k = Suc (Suc 0) \<or> k = Suc (Suc (Suc 0))
        \<or> (\<exists>j. k = Suc (Suc (Suc (Suc j))))"
    by arith
  then show ?thesis
    by (elim disjE exE)
       (simp_all add: ri run_bind_def NullOption_def Consequence_def apply_function_def do_nothing_def)
qed

lemma BanditAttack_diverges:
  assumes "v < length (players s)"
    and "DECK (players s ! v) = []" and "DISCARD (players s ! v) = []"
    and "filter (\<lambda>x. name x = ''Moat'') (HAND (players s ! v)) = []"
    and "select E v s [NullOption v (Some failure_message)] ImmunityProcedure =
                Inr (NullOption v (Some failure_message))"
    and "select E v s [NullOption v None] BanditProcedure = Inr (NullOption v None)"
  shows "exec n E (Call_Process (BanditAttack v)) (s, f) = None"
proof (cases n)
  case 0
  then show ?thesis by simp
next
  case (Suc m)
  from immunity_step_no_moat [OF assms(4,5), of m False]
  show ?thesis
    using bandit_while_diverges [OF assms(1,2,3,6)]
    by (auto simp: Suc run_bind_def)
qed

text \<open>
  Claim C6.  The claim asks every Process to terminate.  \<open>BanditAttack\<close> inherits the
  antecedent \<open>not immunity\<close> and nothing in its main Effect changes the flag: against a
  victim without a Moat, with an empty deck and an empty discard pile, each iteration
  offers and enacts the NullOption and leaves the state as it was, so the loop never ends.
  Whatever the fuel, neither the Process nor the resolution of \<open>BanditChoices\<close> that
  holds it returns.
\<close>

theorem BanditAttack_never_returns:
  "(\<forall>n. Process_call n ex_env (BanditAttack 1) ex_bandit = None)
   \<and> (\<forall>n. resolve n ex_env 0 BanditChoices None (ex_bandit, False) = None)"
proof -
  have d: "exec n ex_env (Call_Process (BanditAttack (Suc 0))) (ex_bandit, f) = None" for n f
    by (rule BanditAttack_diverges)
       (simp_all add: ex_bandit_def ex_env_def mk_state_def mk_player_def Copper_def mk_piece_def)
  have ch: "request_input ex_env ex_bandit 0 BanditChoices 0 =
      Inr (Consequence [Effect_do_nothing 0, Process (BanditAttack 1)] None, ex_bandit)"
    by (simp add: request_input_def expand_choices_def BanditChoices_generate_choices_def
          filter_supply_def opponents_def and_then_def add_def Consequence_def ex_env_def)
       (simp add: ex_bandit_def mk_state_def)
  have r: "resolve n ex_env 0 BanditChoices None (ex_bandit, False) = None" for n
  proof -
    have "n = 0 \<or> n = Suc 0 \<or> n = Suc (Suc 0) \<or> n = Suc (Suc (Suc 0))
        \<or> (\<exists>j. n = Suc (Suc (Suc (Suc j))))"
      by arith
    then show ?thesis
      by (elim disjE exE)
         (simp_all add: resolve_def ch run_bind_def Consequence_def apply_function_def
            do_nothing_def d)
  qed
  show ?thesis using d r by (simp add: Process_call_def)
qed

lemma immunity_choices:
  assumes "filter (\<lambda>x. name x = ''Moat'') (HAND (players s ! v)) = m # ms"
  shows "expand_choices sh s v ImmunityProcedure =
      Inr ([Consequence [Effect_reveal v m, Update_mark_immunity] (Some success_message)], s)"
  using assms
  by (simp add: expand_choices_def ImmunityProcedure_generate_choices_def get_pieces_def)

lemma immunity_setup:
  assumes "filter (\<lambda>x. name x = ''Moat'') (HAND (players s ! v)) = m # ms"
    and sel: "\<forall>c. select E v s [c] ImmunityProcedure = Inr c"
  shows "exec (Suc (Suc (Suc (Suc (Suc k))))) E (Call_effect (Initiate v ImmunityProcedure None)) (s, False)
           = Some (Inr (s, True))"
proof -
  have ri: "request_input E s v ImmunityProcedure v =
      Inr (Consequence [Effect_reveal v m, Update_mark_immunity] (Some success_message), s)"
    using sel by (simp add: request_input_def immunity_choices [OF assms(1)] and_then_def)
  show ?thesis
    by (simp add: ri run_bind_def Consequence_def apply_function_def reveal_def)
qed

text \<open>
  Claim C5.  Let the victim \<open>v\<close> hold a Moat and let the victim's decider take the one
  choice it is offered.  Then \<open>ImmunityProcedure\<close> offers exactly one Consequence, which
  reveals a Moat of the hand and marks immunity; every Attack (Militia, Bureaucrat, Bandit,
  Witch) has this Decision as its setup, and the setup leaves the state as it is with the
  flag set; the antecedent of every Attack is the conjunction of \<open>not immunity\<close> with its
  value at a cleared flag, hence false after the setup; the main loop returns at once
  (one unit of fuel, which no iteration could do with); and the whole Process returns the
  unchanged state with the flag reset to false by the teardown.
\<close>

theorem Attack_immunity:
  assumes "\<exists>m\<in>set (HAND (players s ! v)). name m = ''Moat''"
    and "\<forall>c. select E v s [c] ImmunityProcedure = Inr c"
    and "p \<in> {MilitiaAttack v, BureaucratAttack v, BanditAttack v, WitchAttack v}"
  shows "\<exists>m. m \<in> set (HAND (players s ! v)) \<and> name m = ''Moat'' \<and>
           expand_choices sh s v ImmunityProcedure =
             Inr ([Consequence [Effect_reveal v m, Update_mark_immunity] (Some success_message)], s) \<and>
           setup_effect p = Some (Initiate v ImmunityProcedure None) \<and>
           (\<forall>k. exec (5 + k) E (Call_effect (Initiate v ImmunityProcedure None)) (s, False)
                  = Some (Inr (s, True))) \<and>
           (\<forall>imm s1. antecedent p imm s1 = (\<not> imm \<and> antecedent p False s1)) \<and>
           \<not> antecedent p True s \<and>
           exec (Suc 0) E (Call_while p) (s, True) = Some (Inr (s, True)) \<and>
           (\<forall>k. Process_call (7 + k) E p s = Some (Inr (s, False)))"
proof -
  from assms(1) have "filter (\<lambda>x. name x = ''Moat'') (HAND (players s ! v)) \<noteq> []"
    by (auto simp: filter_empty_conv)
  then obtain m ms where f: "filter (\<lambda>x. name x = ''Moat'') (HAND (players s ! v)) = m # ms"
    by (cases "filter (\<lambda>x. name x = ''Moat'') (HAND (players s ! v))") auto
  have "m \<in> set (filter (\<lambda>x. name x = ''Moat'') (HAND (players s ! v)))" by (simp add: f)
  then have m: "m \<in> set (HAND (players s ! v))" "name m = ''Moat''" by auto
  have su: "exec (5 + k) E (Call_effect (Initiate v ImmunityProcedure None)) (s, False)
              = Some (Inr (s, True))" for k
    using immunity_setup [OF f assms(2), of k] by (simp add: numeral_eq_Suc)
  have su': "exec (Suc (Suc (Suc (Suc (Suc k))))) E (Call_effect (Initiate v ImmunityProcedure None)) (s, False)
              = Some (Inr (s, True))" for k
    using immunity_setup [OF f assms(2), of k] .
  have se: "setup_effect p = Some (Initiate v ImmunityProcedure None)"
    and te: "teardown_effect p = None" and ci: "clear_internal_state p True = False"
    and na: "\<not> antecedent p True s"
    using assms(3) by auto
  have w: "exec (Suc j) E (Call_while p) (s, True) = Some (Inr (s, True))" for j
    using na by simp
  have pc: "Process_call (7 + k) E p s = Some (Inr (s, False))" for k
  proof -
    have "exec (Suc (Suc (Suc (Suc (Suc (Suc (Suc k))))))) E (Call_Process p) (s, False)
            = Some (Inr (s, False))"
      apply (subst exec.simps(2))
      apply (simp only: call.case)
      apply (simp add: se te ci su' w run_bind_def del: exec.simps(2))
      done
    then show ?thesis by (simp add: Process_call_def numeral_eq_Suc)
  qed
  have an: "antecedent p imm s1 = (\<not> imm \<and> antecedent p False s1)" for imm s1
    using assms(3) by auto
  show ?thesis
    by (intro exI [of _ m] conjI allI)
       (rule m(1), rule m(2), rule immunity_choices [OF f], rule se, rule su, rule an, rule na,
        rule w, rule pc)
qed

theorem Attack_immunity_witness:
  "(\<exists>m. m \<in> set (HAND (players ex_moat ! 1)) \<and> name m = ''Moat'' \<and>
        expand_choices rev ex_moat 1 ImmunityProcedure =
          Inr ([Consequence [Effect_reveal 1 m, Update_mark_immunity] (Some success_message)], ex_moat))
   \<and> Process_call 7 ex_env (MilitiaAttack 1) ex_moat = Some (Inr (ex_moat, False))"
proof -
  have 1: "\<exists>m\<in>set (HAND (players ex_moat ! 1)). name m = ''Moat''"
    by (simp add: ex_moat_def mk_state_def mk_player_def Moat_def mk_piece_def)
  have 2: "\<forall>c. select ex_env 1 ex_moat [c] ImmunityProcedure = Inr c"
    by (simp add: ex_env_def)
  have 3: "MilitiaAttack 1 \<in> {MilitiaAttack 1, BureaucratAttack 1, BanditAttack 1, WitchAttack 1}"
    by simp
  from Attack_immunity [OF 1 2 3, of rev] obtain m where
    m: "m \<in> set (HAND (players ex_moat ! 1))" "name m = ''Moat''"
      "expand_choices rev ex_moat 1 ImmunityProcedure =
          Inr ([Consequence [Effect_reveal 1 m, Update_mark_immunity] (Some success_message)], ex_moat)"
    and p: "\<forall>k. Process_call (7 + k) ex_env (MilitiaAttack 1) ex_moat = Some (Inr (ex_moat, False))"
    by blast
  from p have "Process_call (7 + 0) ex_env (MilitiaAttack 1) ex_moat = Some (Inr (ex_moat, False))"
    by (rule spec)
  then have "Process_call 7 ex_env (MilitiaAttack 1) ex_moat = Some (Inr (ex_moat, False))"
    by simp
  with m show ?thesis by blast
qed

section \<open>Hypothetical evaluation\<close>

text \<open>
  Claim C3, as stated, fails at the following input: two players, the Purchase of the
  last Province by the first, and a ranking that raises TypeError.  Both \<open>would_win\<close>
  and \<open>would_win_outright\<close> raise, and the first player's \<open>include\<close> list then
  holds the Province: the revert did not run.
\<close>

theorem would_win_no_revert_on_exception:
  "fst (would_win ex_env_raising 0 ex_acquisition ex_two) = Inl TypeError
   \<and> include_list (players (snd (would_win ex_env_raising 0 ex_acquisition ex_two)) ! 0) = [Province 9]
   \<and> fst (would_win_outright ex_env_raising 0 ex_acquisition ex_two) = Inl TypeError
   \<and> include_list (players (snd (would_win_outright ex_env_raising 0 ex_acquisition ex_two)) ! 0) = [Province 9]"
  by (simp add: would_win_def would_win_outright_def modify_collection_def ex_acquisition_def
        ex_two_def mk_state_def mk_player_def upd_player_def opponents_def would_defeat_def
        would_defeat_or_tie_def ex_env_raising_def ex_env_def and_then_def)

lemma same_zones_refl: "same_zones s s"
  by (simp add: same_zones_def)

lemma modify_collection_zones:
  "a < length (players s) \<Longrightarrow> modify_collection a acq s = Inr s1 \<Longrightarrow> same_zones s1 s"
  by (auto simp: modify_collection_def same_zones_def upd_player_def nth_list_update Let_def
      split: option.splits)

lemma modify_revert:
  assumes "a < length (players s)" and "modify_collection a acq s = Inr s1"
  shows "revert_collection a s1 =
         s\<lparr>players := (players s)[a := (players s ! a)\<lparr>include_list := [], exclude_list := []\<rparr>]\<rparr>"
  using assms
  by (auto simp: modify_collection_def revert_collection_def upd_player_def Let_def
      split: option.splits)

text \<open>
  Claim C3, amended.  For every player of the game and every acquisition argument,
  \<open>would_win\<close> and \<open>would_win_outright\<close> leave every player's HAND, DECK, DISCARD, PLAY
  and ASIDE, the Supply piles and the trash as they were, whether they return or raise;
  and when they return, the state is the old one with the player's \<open>include\<close> and
  \<open>exclude\<close> lists empty.
\<close>

theorem would_win_isolation:
  assumes "a < length (players s)"
    and "w \<in> {would_win E a acq s, would_win_outright E a acq s}"
  shows "same_zones (snd w) s \<and>
         ((\<exists>b. fst w = Inr b) \<longrightarrow>
            snd w = s\<lparr>players := (players s)[a := (players s ! a)
                        \<lparr>include_list := [], exclude_list := []\<rparr>]\<rparr>)"
proof (cases "modify_collection a acq s")
  case (Inl e)
  then show ?thesis using assms(2)
    by (auto simp: would_win_def would_win_outright_def same_zones_refl)
next
  case (Inr s1)
  have z: "same_zones s1 s" by (rule modify_collection_zones [OF assms(1) Inr])
  have r: "revert_collection a s1 =
         s\<lparr>players := (players s)[a := (players s ! a)\<lparr>include_list := [], exclude_list := []\<rparr>]\<rparr>"
    by (rule modify_revert [OF assms(1) Inr])
  have zr: "same_zones (revert_collection a s1) s"
    unfolding r using assms(1) by (auto simp: same_zones_def nth_list_update)
  show ?thesis using assms(2) z zr r
    by (auto simp: would_win_def would_win_outright_def Inr split: sum.splits)
qed

theorem would_win_isolation_witness:
  "fst (would_win ex_env 0 ex_acquisition ex_two) = Inr True
   \<and> same_zones (snd (would_win ex_env 0 ex_acquisition ex_two)) ex_two
   \<and> snd (would_win ex_env 0 ex_acquisition ex_two) = ex_two"
proof -
  have a: "0 < length (players ex_two)"
    by (simp add: ex_two_def mk_state_def)
  have w: "would_win ex_env 0 ex_acquisition ex_two
             \<in> {would_win ex_env 0 ex_acquisition ex_two, would_win_outright ex_env 0 ex_acquisition ex_two}"
    by simp
  have f: "fst (would_win ex_env 0 ex_acquisition ex_two) = Inr True"
    by (simp add: would_win_def modify_collection_def ex_acquisition_def
        ex_two_def mk_state_def mk_player_def upd_player_def opponents_def
        would_defeat_or_tie_def ex_env_def and_then_def)
  have e: "ex_two\<lparr>players := (players ex_two)[0 := (players ex_two ! 0)
                        \<lparr>include_list := [], exclude_list := []\<rparr>]\<rparr> = ex_two"
    by (simp add: ex_two_def mk_state_def mk_player_def)
  from would_win_isolation [OF a w]
  have z: "same_zones (snd (would_win ex_env 0 ex_acquisition ex_two)) ex_two"
    and i: "(\<exists>b. fst (would_win ex_env 0 ex_acquisition ex_two) = Inr b) \<longrightarrow>
            snd (would_win ex_env 0 ex_acquisition ex_two) =
              ex_two\<lparr>players := (players ex_two)[0 := (players ex_two ! 0)
                        \<lparr>include_list := [], exclude_list := []\<rparr>]\<rparr>"
    by blast+
  from i f have "snd (would_win ex_env 0 ex_acquisition ex_two) =
              ex_two\<lparr>players := (players ex_two)[0 := (players ex_two ! 0)
                        \<lparr>include_list := [], exclude_list := []\<rparr>]\<rparr>"
    by blast
  with e have "snd (would_win ex_env 0 ex_acquisition ex_two) = ex_two" by simp
  with f z show ?thesis by simp
qed

section \<open>Conservation of pieces\<close>

lemma zone_ok_valid: "state_ok np npl s \<Longrightarrow> zone_ok np npl z \<Longrightarrow> valid_zone s z"
  by (cases z) (auto simp: zone_ok_def state_ok_def)

lemma sum_list_update_balance:
  fixes f :: "'a \<Rightarrow> 'b::comm_monoid_add"
  shows "a < length xs \<Longrightarrow> sum_list (map f (xs[a := y])) + f (xs ! a) = sum_list (map f xs) + f y"
proof (induction xs arbitrary: a)
  case Nil
  then show ?case by simp
next
  case (Cons x xs)
  show ?case
  proof (cases a)
    case 0
    then show ?thesis by (simp add: ac_simps)
  next
    case (Suc b)
    with Cons.prems have "b < length xs" by simp
    from Cons.IH [OF this] show ?thesis by (simp add: Suc ac_simps)
  qed
qed

lemma nth_list_update_if: "(xs[i := x]) ! j = (if i = j \<and> i < length xs then x else xs ! j)"
  by (cases "i < length xs") (auto simp: nth_list_update list_update_beyond)

lemma get_set_same [simp]: "valid_zone s z \<Longrightarrow> get_zone z (set_zone z xs s) = xs"
  by (cases z) (auto simp: upd_player_def)

lemma get_set_other [simp]: "z \<noteq> z1 \<Longrightarrow> get_zone z (set_zone z1 xs s) = get_zone z s"
  by (cases z; cases z1) (auto simp: upd_player_def nth_list_update_if)

lemma valid_set_zone [simp]: "valid_zone (set_zone z1 xs s) z = valid_zone s z"
  by (cases z; cases z1) (auto simp: upd_player_def)

lemma state_ok_set_zone [simp]: "state_ok np npl (set_zone z xs s) = state_ok np npl s"
  by (cases z) (auto simp: state_ok_def upd_player_def)

lemma all_pieces_set_zone:
  assumes "valid_zone s z"
  shows "all_pieces (set_zone z xs s) + mset (get_zone z s) = all_pieces s + mset xs"
proof (cases z)
  case (Hand a)
  then have a: "a < length (players s)" using assms by simp
  show ?thesis
    using sum_list_update_balance [OF a, of player_pieces "(players s ! a)\<lparr>HAND := xs\<rparr>"]
    by (simp add: Hand all_pieces_def upd_player_def player_pieces_def ac_simps)
next
  case (Deck a)
  then have a: "a < length (players s)" using assms by simp
  show ?thesis
    using sum_list_update_balance [OF a, of player_pieces "(players s ! a)\<lparr>DECK := xs\<rparr>"]
    by (simp add: Deck all_pieces_def upd_player_def player_pieces_def ac_simps)
next
  case (Discard a)
  then have a: "a < length (players s)" using assms by simp
  show ?thesis
    using sum_list_update_balance [OF a, of player_pieces "(players s ! a)\<lparr>DISCARD := xs\<rparr>"]
    by (simp add: Discard all_pieces_def upd_player_def player_pieces_def ac_simps)
next
  case (Play a)
  then have a: "a < length (players s)" using assms by simp
  show ?thesis
    using sum_list_update_balance [OF a, of player_pieces "(players s ! a)\<lparr>PLAY := xs\<rparr>"]
    by (simp add: Play all_pieces_def upd_player_def player_pieces_def ac_simps)
next
  case (Aside a)
  then have a: "a < length (players s)" using assms by simp
  show ?thesis
    using sum_list_update_balance [OF a, of player_pieces "(players s ! a)\<lparr>ASIDE := xs\<rparr>"]
    by (simp add: Aside all_pieces_def upd_player_def player_pieces_def ac_simps)
next
  case Trash
  then show ?thesis by (simp add: all_pieces_def ac_simps)
next
  case (Pile i)
  then have i: "i < length (piles s)" using assms by simp
  show ?thesis
    using sum_list_update_balance [OF i, of mset xs]
    by (simp add: Pile all_pieces_def ac_simps)
qed


declare set_zone.simps [simp del] get_zone.simps [simp del] valid_zone.simps [simp del]

lemma index_of_Some_lt: "index_of eq x xs = Some i \<Longrightarrow> i < length xs"
  by (induction xs arbitrary: i) (auto split: if_splits)

lemma mset_remove_nth:
  "i < length xs \<Longrightarrow> mset (take i xs @ drop (Suc i) xs) + {#xs ! i#} = mset xs"
proof -
  assume "i < length xs"
  then have "xs = take i xs @ xs ! i # drop (Suc i) xs" by (rule id_take_nth_drop)
  then have "mset xs = mset (take i xs @ xs ! i # drop (Suc i) xs)" by simp
  then show ?thesis by simp
qed

lemma move_one:
  assumes "valid_zone s src" and "valid_zone s dst"
    and "mset rest + {#x#} = mset (get_zone src s)"
  shows "all_pieces (set_zone dst (get_zone dst (set_zone src rest s) @ [x]) (set_zone src rest s))
           = all_pieces s"
proof -
  let ?s1 = "set_zone src rest s"
  have b1: "all_pieces ?s1 + mset (get_zone src s) = all_pieces s + mset rest"
    by (rule all_pieces_set_zone [OF assms(1)])
  have v: "valid_zone ?s1 dst" using assms(2) by simp
  have b2: "all_pieces (set_zone dst (get_zone dst ?s1 @ [x]) ?s1) + mset (get_zone dst ?s1)
              = all_pieces ?s1 + mset (get_zone dst ?s1 @ [x])"
    by (rule all_pieces_set_zone [OF v])
  from b2 have c2: "all_pieces (set_zone dst (get_zone dst ?s1 @ [x]) ?s1) = all_pieces ?s1 + {#x#}"
    by simp
  have "all_pieces ?s1 + (mset rest + {#x#}) = all_pieces s + mset rest"
    using b1 by (simp only: assms(3))
  then have "(all_pieces ?s1 + {#x#}) + mset rest = all_pieces s + mset rest"
    by (simp only: ac_simps)
  then have "all_pieces ?s1 + {#x#} = all_pieces s" by (rule add_right_imp_eq)
  with c2 show ?thesis by simp
qed

lemma transfer_piece_conserves:
  assumes "state_ok np npl s" and "zone_ok np npl destination" and "zone_ok np npl source"
    and "transfer_piece eq pc destination source s = Inr s1"
  shows "state_ok np npl s1 \<and> all_pieces s1 = all_pieces s"
proof -
  from assms(4) obtain i where i: "index_of eq pc (get_zone source s) = Some i"
    by (auto simp: transfer_piece_def split: option.splits)
  let ?xs = "get_zone source s"
  have il: "i < length ?xs" by (rule index_of_Some_lt [OF i])
  have s1: "s1 = set_zone destination
                   (get_zone destination (set_zone source (take i ?xs @ drop (Suc i) ?xs) s) @ [?xs ! i])
                   (set_zone source (take i ?xs @ drop (Suc i) ?xs) s)"
    using assms(4) by (simp add: transfer_piece_def i Let_def)
  have "all_pieces s1 = all_pieces s"
    unfolding s1
    by (rule move_one [OF zone_ok_valid [OF assms(1,3)] zone_ok_valid [OF assms(1,2)]
          mset_remove_nth [OF il]])
  moreover have "state_ok np npl s1" unfolding s1 using assms(1) by simp
  ultimately show ?thesis by simp
qed

lemma transfer_top_piece_conserves:
  assumes "state_ok np npl s" and "zone_ok np npl destination" and "zone_ok np npl source"
    and "transfer_top_piece destination source s = Inr s1"
  shows "state_ok np npl s1 \<and> all_pieces s1 = all_pieces s"
proof -
  let ?xs = "get_zone source s"
  from assms(4) have ne: "?xs \<noteq> []"
    by (auto simp: transfer_top_piece_def Let_def split: if_splits)
  have s1: "s1 = set_zone destination
                   (get_zone destination (set_zone source (butlast ?xs) s) @ [last ?xs])
                   (set_zone source (butlast ?xs) s)"
    using assms(4) ne by (simp add: transfer_top_piece_def Let_def)
  have m: "mset (butlast ?xs) + {#last ?xs#} = mset ?xs"
  proof -
    have "mset (butlast ?xs @ [last ?xs]) = mset (butlast ?xs) + {#last ?xs#}" by simp
    moreover have "butlast ?xs @ [last ?xs] = ?xs" using ne by simp
    ultimately show ?thesis by simp
  qed
  have "all_pieces s1 = all_pieces s"
    unfolding s1
    by (rule move_one [OF zone_ok_valid [OF assms(1,3)] zone_ok_valid [OF assms(1,2)] m])
  moreover have "state_ok np npl s1" unfolding s1 using assms(1) by simp
  ultimately show ?thesis by simp
qed


lemma append_zone:
  assumes "valid_zone s z"
  shows "all_pieces (set_zone z (get_zone z s @ ys) s) = all_pieces s + mset ys"
proof -
  have "all_pieces (set_zone z (get_zone z s @ ys) s) + mset (get_zone z s)
          = all_pieces s + mset (get_zone z s @ ys)"
    by (rule all_pieces_set_zone [OF assms])
  then have "(all_pieces (set_zone z (get_zone z s @ ys) s)) + mset (get_zone z s)
          = (all_pieces s + mset ys) + mset (get_zone z s)"
    by (simp add: ac_simps)
  then show ?thesis by (rule add_right_imp_eq)
qed

lemma clear_zone:
  assumes "valid_zone s z"
  shows "all_pieces (set_zone z [] s) + mset (get_zone z s) = all_pieces s"
  using all_pieces_set_zone [OF assms, of "[]"] by simp

lemma split_zone:
  assumes "valid_zone s src" and "valid_zone s dst"
    and "mset keep + mset gone = mset (get_zone src s)"
  shows "all_pieces
           (set_zone dst
              (get_zone dst (set_zone src (get_zone src (set_zone src [] s) @ keep) (set_zone src [] s)) @ gone)
              (set_zone src (get_zone src (set_zone src [] s) @ keep) (set_zone src [] s)))
         = all_pieces s"
proof -
  let ?s1 = "set_zone src [] s"
  let ?s2 = "set_zone src (get_zone src ?s1 @ keep) ?s1"
  have v1: "valid_zone ?s1 src" using assms(1) by simp
  have v2: "valid_zone ?s2 dst" using assms(2) by simp
  have a3: "all_pieces (set_zone dst (get_zone dst ?s2 @ gone) ?s2) = all_pieces ?s2 + mset gone"
    by (rule append_zone [OF v2])
  have a2: "all_pieces ?s2 = all_pieces ?s1 + mset keep"
    by (rule append_zone [OF v1])
  have a1: "all_pieces ?s1 + mset (get_zone src s) = all_pieces s"
    by (rule clear_zone [OF assms(1)])
  have "all_pieces (set_zone dst (get_zone dst ?s2 @ gone) ?s2)
          = all_pieces ?s1 + (mset keep + mset gone)"
    by (simp only: a3 a2 ac_simps)
  also have "\<dots> = all_pieces s" by (simp only: assms(3) a1)
  finally show ?thesis .
qed

lemma discard_piece_conserves:
  assumes "state_ok np npl s" and "actor < np" and "zone_opt_ok np npl source"
  shows "state_ok np npl (discard_piece actor pc source s)
         \<and> all_pieces (discard_piece actor pc source s) = all_pieces s"
proof -
  let ?src = "case source of None \<Rightarrow> Hand actor | Some z \<Rightarrow> z"
  have zs: "zone_ok np npl ?src" using assms(2,3)
    by (auto simp: zone_opt_ok_def zone_ok_def split: option.splits)
  have zd: "zone_ok np npl (Discard actor)" using assms(2) by (simp add: zone_ok_def)
  have m: "mset (filter (\<lambda>x. \<not> uid x = uid pc) (get_zone ?src s))
           + mset (filter (\<lambda>x. uid x = uid pc) (get_zone ?src s)) = mset (get_zone ?src s)"
    by (simp add: ac_simps)
  show ?thesis
    using split_zone [OF zone_ok_valid [OF assms(1) zs] zone_ok_valid [OF assms(1) zd] m] assms(1)
    by (simp add: discard_piece_def partition_items_def Let_def)
qed

lemma discard_pieces_conserves:
  assumes "state_ok np npl s" and "actor < np" and "zone_opt_ok np npl source"
  shows "state_ok np npl (discard_pieces actor pcs source s)
         \<and> all_pieces (discard_pieces actor pcs source s) = all_pieces s"
proof -
  let ?src = "case source of None \<Rightarrow> Hand actor | Some z \<Rightarrow> z"
  let ?P = "\<lambda>pc. list_ex (\<lambda>piece_to_discard. uid piece_to_discard = uid pc) pcs"
  have zs: "zone_ok np npl ?src" using assms(2,3)
    by (auto simp: zone_opt_ok_def zone_ok_def split: option.splits)
  have zd: "zone_ok np npl (Discard actor)" using assms(2) by (simp add: zone_ok_def)
  have m: "mset (filter (\<lambda>x. \<not> ?P x) (get_zone ?src s))
           + mset (filter ?P (get_zone ?src s)) = mset (get_zone ?src s)"
    by (simp add: ac_simps)
  show ?thesis
    using split_zone [OF zone_ok_valid [OF assms(1) zs] zone_ok_valid [OF assms(1) zd] m] assms(1)
    by (simp add: discard_pieces_def Let_def)
qed

lemma discard_zone_conserves:
  assumes "state_ok np npl s" and "actor < np" and "zone_ok np npl source"
    and "source \<noteq> Discard actor"
  shows "state_ok np npl (discard_zone actor source s)
         \<and> all_pieces (discard_zone actor source s) = all_pieces s"
proof -
  let ?s1 = "set_zone (Discard actor) (get_zone (Discard actor) s @ get_zone source s) s"
  have zd: "zone_ok np npl (Discard actor)" using assms(2) by (simp add: zone_ok_def)
  have a1: "all_pieces ?s1 = all_pieces s + mset (get_zone source s)"
    by (rule append_zone [OF zone_ok_valid [OF assms(1) zd]])
  have v: "valid_zone ?s1 source" using zone_ok_valid [OF assms(1,3)] by simp
  have g: "get_zone source ?s1 = get_zone source s" using assms(4) by simp
  have "all_pieces (set_zone source [] ?s1) + mset (get_zone source s) = all_pieces ?s1"
    using clear_zone [OF v] by (simp only: g)
  then have "all_pieces (set_zone source [] ?s1) + mset (get_zone source s)
               = all_pieces s + mset (get_zone source s)"
    by (simp only: a1)
  then have "all_pieces (set_zone source [] ?s1) = all_pieces s" by (rule add_right_imp_eq)
  then show ?thesis using assms(1) by (simp add: discard_zone_def Let_def)
qed


lemma all_pieces_counters [simp]:
  "all_pieces (s\<lparr>n_action := i\<rparr>) = all_pieces s"
  "all_pieces (s\<lparr>n_buy := i\<rparr>) = all_pieces s"
  "all_pieces (s\<lparr>n_coin := i\<rparr>) = all_pieces s"
  "all_pieces (s\<lparr>n_silver_played_this_turn := i\<rparr>) = all_pieces s"
  "all_pieces (s\<lparr>merchant_silver_bonus := i\<rparr>) = all_pieces s"
  "all_pieces (s\<lparr>need_action_phase := b\<rparr>) = all_pieces s"
  "all_pieces (s\<lparr>need_treasure_phase := b\<rparr>) = all_pieces s"
  "all_pieces (s\<lparr>need_buy_phase := b\<rparr>) = all_pieces s"
  "all_pieces (s\<lparr>n_empty_piles := i\<rparr>) = all_pieces s"
  "all_pieces (s\<lparr>province_pile_empty := b\<rparr>) = all_pieces s"
  by (simp_all add: all_pieces_def)

lemma state_ok_counters [simp]:
  "state_ok np npl (s\<lparr>n_action := i\<rparr>) = state_ok np npl s"
  "state_ok np npl (s\<lparr>n_buy := i\<rparr>) = state_ok np npl s"
  "state_ok np npl (s\<lparr>n_coin := i\<rparr>) = state_ok np npl s"
  "state_ok np npl (s\<lparr>n_silver_played_this_turn := i\<rparr>) = state_ok np npl s"
  "state_ok np npl (s\<lparr>merchant_silver_bonus := i\<rparr>) = state_ok np npl s"
  "state_ok np npl (s\<lparr>need_action_phase := b\<rparr>) = state_ok np npl s"
  "state_ok np npl (s\<lparr>need_treasure_phase := b\<rparr>) = state_ok np npl s"
  "state_ok np npl (s\<lparr>need_buy_phase := b\<rparr>) = state_ok np npl s"
  "state_ok np npl (s\<lparr>n_empty_piles := i\<rparr>) = state_ok np npl s"
  "state_ok np npl (s\<lparr>province_pile_empty := b\<rparr>) = state_ok np npl s"
  by (simp_all add: state_ok_def)

lemma zone_ok_simps [simp]:
  "zone_ok np npl (Hand a) = (a < np)" "zone_ok np npl (Deck a) = (a < np)"
  "zone_ok np npl (Discard a) = (a < np)" "zone_ok np npl (Play a) = (a < np)"
  "zone_ok np npl (Aside a) = (a < np)" "zone_ok np npl Trash" "zone_ok np npl (Pile i) = (i < npl)"
  by (simp_all add: zone_ok_def)

lemma zone_default_ok:
  "zone_ok np npl d \<Longrightarrow> zone_opt_ok np npl z \<Longrightarrow> zone_ok np npl (case z of None \<Rightarrow> d | Some x \<Rightarrow> x)"
  by (cases z) (simp_all add: zone_opt_ok_def)

lemma handle_acquisition_conserves:
  assumes "state_ok np npl s" and "zone_ok np npl destination"
    and "handle_acquisition eq plr pc destination s = Inr s1"
  shows "state_ok np npl s1 \<and> all_pieces s1 = all_pieces s"
proof -
  from assms(3) have l: "total_order_index pc < length (piles s)"
    by (auto simp: handle_acquisition_def split: if_splits)
  then have zp: "zone_ok np npl (Pile (total_order_index pc))"
    using assms(1) by (simp add: state_ok_def)
  from assms(3) l obtain s0 where
    t: "transfer_piece eq pc destination (Pile (total_order_index pc)) s = Inr s0"
    by (auto simp: handle_acquisition_def and_then_def Let_def split: sum.splits)
  from transfer_piece_conserves [OF assms(1,2) zp t]
  have c: "state_ok np npl s0" "all_pieces s0 = all_pieces s" by simp_all
  from assms(3) l t c show ?thesis
    by (auto simp: handle_acquisition_def and_then_def Let_def split: if_splits)
qed

lemma permute_zone:
  assumes "valid_zone s z" and "mset xs = mset (get_zone z s)"
  shows "all_pieces (set_zone z xs s) = all_pieces s"
proof -
  have "all_pieces (set_zone z xs s) + mset (get_zone z s) = all_pieces s + mset (get_zone z s)"
    using all_pieces_set_zone [OF assms(1), of xs] by (simp only: assms(2))
  then show ?thesis by (rule add_right_imp_eq)
qed

lemma swap_top_cards_of_deck_conserves:
  assumes "state_ok np npl s" and "actor < np" and "swap_top_cards_of_deck actor s = Inr s1"
  shows "state_ok np npl s1 \<and> all_pieces s1 = all_pieces s"
proof -
  let ?d = "get_zone (Deck actor) s"
  from assms(3) have ne: "?d \<noteq> []" "butlast ?d \<noteq> []"
    by (auto simp: swap_top_cards_of_deck_def Let_def split: if_splits)
  have s1: "s1 = set_zone (Deck actor) (butlast (butlast ?d) @ [last ?d, last (butlast ?d)]) s"
    using assms(3) ne by (simp add: swap_top_cards_of_deck_def Let_def)
  have "?d = butlast ?d @ [last ?d]" using ne(1) by simp
  also have "butlast ?d = butlast (butlast ?d) @ [last (butlast ?d)]" using ne(2) by simp
  finally have d: "?d = (butlast (butlast ?d) @ [last (butlast ?d)]) @ [last ?d]" .
  have "mset ?d = mset ((butlast (butlast ?d) @ [last (butlast ?d)]) @ [last ?d])"
    by (rule arg_cong [OF d])
  then have m: "mset (butlast (butlast ?d) @ [last ?d, last (butlast ?d)]) = mset ?d"
    by simp
  have v: "valid_zone s (Deck actor)"
    by (rule zone_ok_valid [OF assms(1)]) (simp add: assms(2))
  show ?thesis
    unfolding s1 using permute_zone [OF v m] assms(1) by simp
qed

lemma replenish_deck_conserves:
  assumes "state_ok np npl s" and "actor < np" and "\<forall>xs. mset (sh xs) = mset xs"
  shows "state_ok np npl (replenish_deck sh actor s)
         \<and> all_pieces (replenish_deck sh actor s) = all_pieces s"
proof -
  have a: "actor < length (players s)" using assms(1,2) by (simp add: state_ok_def)
  let ?p = "players s ! actor"
  let ?q = "?p\<lparr>DECK := sh (DISCARD ?p) @ DECK ?p, DISCARD := []\<rparr>"
  have pp: "player_pieces ?q = player_pieces ?p"
    using assms(3) by (simp add: player_pieces_def ac_simps)
  have "sum_list (map player_pieces ((players s)[actor := ?q])) + player_pieces ?p
          = sum_list (map player_pieces (players s)) + player_pieces ?q"
    by (rule sum_list_update_balance [OF a])
  then have "sum_list (map player_pieces ((players s)[actor := ?q])) + player_pieces ?p
          = sum_list (map player_pieces (players s)) + player_pieces ?p"
    by (simp only: pp)
  then have "sum_list (map player_pieces ((players s)[actor := ?q]))
          = sum_list (map player_pieces (players s))"
    by (rule add_right_imp_eq)
  then show ?thesis
    using assms(1) by (simp add: replenish_deck_eq [OF a] all_pieces_def state_ok_def)
qed

lemma prepare_deck_conserves:
  assumes "state_ok np npl s" and "actor < np" and "\<forall>xs. mset (sh xs) = mset xs"
  shows "state_ok np npl (prepare_deck sh actor n s)
         \<and> all_pieces (prepare_deck sh actor n s) = all_pieces s"
  using replenish_deck_conserves [OF assms] assms(1)
  by (simp add: prepare_deck_def)

lemma transfer_top_pieces_conserves:
  assumes "zone_ok np npl destination" and "zone_ok np npl source"
  shows "state_ok np npl s \<Longrightarrow> transfer_top_pieces k destination source s = Inr s1
         \<Longrightarrow> state_ok np npl s1 \<and> all_pieces s1 = all_pieces s"
proof (induction k arbitrary: s)
  case 0
  then show ?case by simp
next
  case (Suc k)
  from Suc.prems(2) obtain s0 where
    t: "transfer_top_piece destination source s = Inr s0"
    and r: "transfer_top_pieces k destination source s0 = Inr s1"
    by (auto simp: and_then_def split: sum.splits)
  from transfer_top_piece_conserves [OF Suc.prems(1) assms t]
  have c: "state_ok np npl s0" "all_pieces s0 = all_pieces s" by simp_all
  from Suc.IH [OF c(1) r] c(2) show ?case by simp
qed

lemma draw_conserves:
  assumes "state_ok np npl s" and "actor < np" and "\<forall>xs. mset (sh xs) = mset xs"
    and "draw sh actor n s = Inr s1"
  shows "state_ok np npl s1 \<and> all_pieces s1 = all_pieces s"
proof -
  from prepare_deck_conserves [OF assms(1,2,3), of n]
  have c: "state_ok np npl (prepare_deck sh actor n s)"
    "all_pieces (prepare_deck sh actor n s) = all_pieces s" by simp_all
  have zh: "zone_ok np npl (Hand actor)" and zd: "zone_ok np npl (Deck actor)"
    using assms(2) by simp_all
  from assms(4) transfer_top_pieces_conserves [OF zh zd c(1)] c(2)
  show ?thesis by (simp add: draw_def Let_def)
qed

lemma trash_pieces_conserves:
  assumes "actor < np" and "zone_opt_ok np npl source"
  shows "state_ok np npl s \<Longrightarrow> trash_pieces eq actor pcs source s = Inr s1
         \<Longrightarrow> state_ok np npl s1 \<and> all_pieces s1 = all_pieces s"
proof (induction pcs arbitrary: s)
  case Nil
  then show ?case by simp
next
  case (Cons pc pcs)
  from Cons.prems(2) obtain s0 where
    t: "trash eq actor pc source s = Inr s0"
    and r: "trash_pieces eq actor pcs source s0 = Inr s1"
    by (auto simp: and_then_def split: sum.splits)
  have zs: "zone_ok np npl (case source of None \<Rightarrow> Hand actor | Some z \<Rightarrow> z)"
    by (rule zone_default_ok) (simp_all add: assms)
  from t have "transfer_piece eq pc Trash (case source of None \<Rightarrow> Hand actor | Some z \<Rightarrow> z) s = Inr s0"
    by (simp add: trash_def)
  from transfer_piece_conserves [OF Cons.prems(1) _ zs this]
  have c: "state_ok np npl s0" "all_pieces s0 = all_pieces s" by simp_all
  from Cons.IH [OF c(1) r] c(2) show ?case by simp
qed

lemma apply_function_conserves:
  assumes "state_ok np npl s" and "well_formed np npl e"
    and "\<forall>xs. mset (shuffle E xs) = mset xs"
    and "apply_function E e s = Inr s1"
  shows "state_ok np npl s1 \<and> all_pieces s1 = all_pieces s"
proof (cases e)
  case (Effect_end_phase a ph)
  then show ?thesis using assms(1,4)
    by (auto simp: apply_function_def end_phase_def split: if_splits)
next
  case (Effect_do_nothing a)
  then show ?thesis using assms(1,4) by (auto simp: apply_function_def do_nothing_def)
next
  case (Effect_play_piece a pc src free)
  then show ?thesis using assms(1,4) by (auto simp: apply_function_def)
next
  case (Effect_buy_piece a pc)
  then have "handle_acquisition (piece_eq E) a pc (Discard a) (pay_cost pc s) = Inr s1"
    using assms(4) by (simp add: apply_function_def buy_piece_def)
  moreover have "state_ok np npl (pay_cost pc s)" "all_pieces (pay_cost pc s) = all_pieces s"
    using assms(1) by (simp_all add: pay_cost_def)
  moreover have "zone_ok np npl (Discard a)"
    using assms(2) Effect_buy_piece by (simp add: well_formed_def)
  ultimately show ?thesis using handle_acquisition_conserves by metis
next
  case (Effect_gain a pc dst)
  then have "handle_acquisition (piece_eq E) a pc (case dst of None \<Rightarrow> Discard a | Some d \<Rightarrow> d) s = Inr s1"
    using assms(4) by (simp add: apply_function_def gain_def)
  moreover have "zone_ok np npl (case dst of None \<Rightarrow> Discard a | Some d \<Rightarrow> d)"
    using assms(2) Effect_gain by (intro zone_default_ok) (simp_all add: well_formed_def)
  ultimately show ?thesis using handle_acquisition_conserves [OF assms(1)] by blast
next
  case (Effect_trash a pc src)
  then have "transfer_piece (piece_eq E) pc Trash (case src of None \<Rightarrow> Hand a | Some z \<Rightarrow> z) s = Inr s1"
    using assms(4) by (simp add: apply_function_def trash_def)
  moreover have "zone_ok np npl (case src of None \<Rightarrow> Hand a | Some z \<Rightarrow> z)"
    using assms(2) Effect_trash by (intro zone_default_ok) (simp_all add: well_formed_def)
  ultimately show ?thesis using transfer_piece_conserves [OF assms(1), of Trash] by simp
next
  case (Effect_trash_pieces a pcs)
  then have "trash_pieces (piece_eq E) a pcs None s = Inr s1"
    using assms(4) by (simp add: apply_function_def)
  moreover have "a < np" using assms(2) Effect_trash_pieces by (simp add: well_formed_def)
  ultimately show ?thesis
    using trash_pieces_conserves [OF _ _ assms(1), of a None] by (simp add: zone_opt_ok_def)
next
  case (Effect_reveal a pc)
  then show ?thesis using assms(1,4) by (auto simp: apply_function_def reveal_def)
next
  case (Effect_put a pc)
  then have "transfer_piece (piece_eq E) pc (Hand a) (Deck a) s = Inr s1"
    using assms(4) by (simp add: apply_function_def put_def)
  moreover have "a < np" using assms(2) Effect_put by (simp add: well_formed_def)
  ultimately show ?thesis using transfer_piece_conserves [OF assms(1), of "Hand a" "Deck a"] by simp
next
  case (Effect_set_aside a pc src)
  then have "transfer_piece (piece_eq E) pc (Aside a) src s = Inr s1"
    using assms(4) by (simp add: apply_function_def set_aside_def)
  moreover have "a < np" "zone_ok np npl src"
    using assms(2) Effect_set_aside by (simp_all add: well_formed_def)
  ultimately show ?thesis using transfer_piece_conserves [OF assms(1), of "Aside a" src] by simp
next
  case (Effect_topdeck a pc src)
  then have "transfer_piece (piece_eq E) pc (Deck a) src s = Inr s1"
    using assms(4) by (simp add: apply_function_def topdeck_def)
  moreover have "a < np" "zone_ok np npl src"
    using assms(2) Effect_topdeck by (simp_all add: well_formed_def)
  ultimately show ?thesis using transfer_piece_conserves [OF assms(1), of "Deck a" src] by simp
next
  case (Effect_discard_piece a pc src)
  then have "s1 = discard_piece a pc src s" using assms(4) by (simp add: apply_function_def)
  moreover have "a < np" "zone_opt_ok np npl src"
    using assms(2) Effect_discard_piece by (simp_all add: well_formed_def)
  ultimately show ?thesis using discard_piece_conserves [OF assms(1)] by simp
next
  case (Effect_discard_pieces a pcs src)
  then have "s1 = discard_pieces a pcs src s" using assms(4) by (simp add: apply_function_def)
  moreover have "a < np" "zone_opt_ok np npl src"
    using assms(2) Effect_discard_pieces by (simp_all add: well_formed_def)
  ultimately show ?thesis using discard_pieces_conserves [OF assms(1)] by simp
next
  case (Effect_discard_zone a src)
  then have "s1 = discard_zone a src s" using assms(4) by (simp add: apply_function_def)
  moreover have "a < np" "zone_ok np npl src" "src \<noteq> Discard a"
    using assms(2) Effect_discard_zone by (simp_all add: well_formed_def)
  ultimately show ?thesis using discard_zone_conserves [OF assms(1)] by simp
next
  case (Effect_draw a n)
  then have "draw (shuffle E) a n s = Inr s1" using assms(4) by (simp add: apply_function_def)
  moreover have "a < np" using assms(2) Effect_draw by (simp add: well_formed_def)
  ultimately show ?thesis using draw_conserves [OF assms(1) _ assms(3)] by simp
next
  case (Effect_swap_top_cards_of_deck a)
  then have "swap_top_cards_of_deck a s = Inr s1" using assms(4) by (simp add: apply_function_def)
  moreover have "a < np" using assms(2) Effect_swap_top_cards_of_deck by (simp add: well_formed_def)
  ultimately show ?thesis using swap_top_cards_of_deck_conserves [OF assms(1)] by simp
next
  case (Effect_add_card n)
  then have "draw (shuffle E) (current_player s) n s = Inr s1"
    using assms(4) by (simp add: apply_function_def add_card_def)
  moreover have "current_player s < np" using assms(1) by (simp add: state_ok_def)
  ultimately show ?thesis using draw_conserves [OF assms(1) _ assms(3)] by simp
next
  case (Effect_add_action n)
  then show ?thesis using assms(1,4) by (auto simp: apply_function_def add_action_def)
next
  case (Effect_add_buy n)
  then show ?thesis using assms(1,4) by (auto simp: apply_function_def add_buy_def)
next
  case (Effect_add_coin n)
  then show ?thesis using assms(1,4) by (auto simp: apply_function_def add_coin_def)
next
  case Effect_add_merchant_silver_bonus
  then show ?thesis using assms(1,4) by (auto simp: apply_function_def add_merchant_silver_bonus_def)
next
  case Effect_add_silver
  then show ?thesis using assms(1,4)
    by (auto simp: apply_function_def add_silver_def add_coin_def Let_def)
next
  case (Effect_play_treasures a pcs)
  then show ?thesis using assms(1,4) by (auto simp: apply_function_def)
next
  case (Effect_resolve_effects a pc)
  then show ?thesis using assms(1,4) by (auto simp: apply_function_def)
next
  case (Initiate a d decider)
  then show ?thesis using assms(1,4) by (auto simp: apply_function_def)
next
  case Update_mark_immunity
  then show ?thesis using assms(1,4) by (auto simp: apply_function_def)
next
  case (Process p)
  then show ?thesis using assms(1,4) by (auto simp: apply_function_def)
qed

lemma opponents_lt: "state_ok np npl s \<Longrightarrow> v \<in> set (opponents s a) \<Longrightarrow> v < np"
proof -
  assume ok: "state_ok np npl s" and v: "v \<in> set (opponents s a)"
  from v obtain x where x: "v = (a + x) mod length (players s)" "x < length (players s)"
    by (auto simp: opponents_def)
  from x(2) have "0 < length (players s)" by (cases "players s") auto
  then have "(a + x) mod length (players s) < length (players s)" by (rule mod_less_divisor)
  with x(1) ok show ?thesis by (simp add: state_ok_def)
qed

lemma collect_Inr: "collect rs = Inr xs \<Longrightarrow> x \<in> set xs \<Longrightarrow> Inr x \<in> set rs"
proof (induction rs arbitrary: xs)
  case Nil
  then show ?case by simp
next
  case (Cons r rs)
  then show ?case
    by (auto simp: and_then_def split: sum.splits)
qed

lemma effects_simps [simp]:
  "effects (Consequence effs msg) = effs"
  "effects (NullOption a msg) = [Effect_do_nothing a]"
  "effects (PassOption a ph) = [Effect_end_phase a ph]"
  "effects (Act a pc) = [Effect_play_piece a pc None False]"
  "effects (add e c) = effects c @ [e]"
  by (simp_all add: Consequence_def NullOption_def PassOption_def Act_def add_def)

lemma Acquisition_effects: "Acquisition effs = Inr c \<Longrightarrow> effects c = effs"
  by (auto simp: Acquisition_def and_then_def Consequence_def split: list.splits sum.splits)

lemma Purchase_effects: "Purchase a pc = Inr c \<Longrightarrow> effects c = [Effect_buy_piece a pc]"
  by (auto simp: Purchase_def and_then_def dest!: Acquisition_effects split: sum.splits)

lemma DependentAcquisition_effects: "DependentAcquisition effs = Inr c \<Longrightarrow> effects c = effs"
  by (auto simp: DependentAcquisition_def and_then_def dest!: Acquisition_effects
      split: list.splits sum.splits)

lemma effects_foldl_add:
  "effects (foldl (\<lambda>c v. add (f v) c) c0 vs) = effects c0 @ map f vs"
  by (induction vs arbitrary: c0) simp_all

lemma wf_simps [simp]:
  "well_formed np npl (Effect_end_phase a ph) = (a < np)"
  "well_formed np npl (Effect_do_nothing a) = (a < np)"
  "well_formed np npl (Effect_play_piece a pc src free) = (a < np \<and> zone_opt_ok np npl src)"
  "well_formed np npl (Effect_buy_piece a pc) = (a < np)"
  "well_formed np npl (Effect_gain a pc dst) = (a < np \<and> zone_opt_ok np npl dst)"
  "well_formed np npl (Effect_trash a pc src) = (a < np \<and> zone_opt_ok np npl src)"
  "well_formed np npl (Effect_trash_pieces a pcs) = (a < np)"
  "well_formed np npl (Effect_reveal a pc) = (a < np)"
  "well_formed np npl (Effect_put a pc) = (a < np)"
  "well_formed np npl (Effect_set_aside a pc z) = (a < np \<and> zone_ok np npl z)"
  "well_formed np npl (Effect_topdeck a pc z) = (a < np \<and> zone_ok np npl z)"
  "well_formed np npl (Effect_discard_piece a pc src) = (a < np \<and> zone_opt_ok np npl src)"
  "well_formed np npl (Effect_discard_pieces a pcs src) = (a < np \<and> zone_opt_ok np npl src)"
  "well_formed np npl (Effect_discard_zone a z) = (a < np \<and> zone_ok np npl z \<and> z \<noteq> Discard a)"
  "well_formed np npl (Effect_draw a n) = (a < np)"
  "well_formed np npl (Effect_swap_top_cards_of_deck a) = (a < np)"
  "well_formed np npl (Effect_add_coin n)"
  "well_formed np npl (Effect_play_treasures a pcs) = (a < np)"
  "well_formed np npl (Effect_resolve_effects a pc) = (a < np)"
  "well_formed np npl (Initiate a d decider) = (a < np)"
  "well_formed np npl Update_mark_immunity"
  "well_formed np npl (Process p) = (process_actor p < np)"
  by (simp_all add: well_formed_def)

lemma zone_opt_ok_simps [simp]:
  "zone_opt_ok np npl None" "zone_opt_ok np npl (Some z) = zone_ok np npl z"
  by (simp_all add: zone_opt_ok_def)

lemma expand_choices_state:
  assumes "state_ok np npl s" and "actor < np" and "\<forall>xs. mset (sh xs) = mset xs"
    and "expand_choices sh s actor d = Inr (cs, s1)"
  shows "state_ok np npl s1 \<and> all_pieces s1 = all_pieces s"
proof -
  have "s1 = s \<or> (\<exists>n. s1 = prepare_deck sh actor n s)"
    using assms(4)
    by (cases d)
       (auto simp: expand_choices_def and_then_def VassalChoices_generate_choices_def
          BanditProcedure_generate_choices_def LibraryProcedure_generate_choices_def
          SentryChoices_generate_choices_def Let_def
          split: sum.splits if_splits list.splits prod.splits)
  then show ?thesis
    using assms(1) prepare_deck_conserves [OF assms(1,2,3)] by auto
qed

lemma wf_choices_simps [simp]:
  "wf_choices np npl []"
  "wf_choices np npl (c # cs) = ((\<forall>e\<in>set (effects c). well_formed np npl e) \<and> wf_choices np npl cs)"
  "wf_choices np npl (cs @ ds) = (wf_choices np npl cs \<and> wf_choices np npl ds)"
  by (auto simp: wf_choices_def)

lemma wf_choices_map:
  "(\<And>x. x \<in> set xs \<Longrightarrow> \<forall>e\<in>set (effects (f x)). well_formed np npl e) \<Longrightarrow> wf_choices np npl (map f xs)"
  by (auto simp: wf_choices_def)

lemma wf_collect:
  assumes "collect rs = Inr cs"
    and "\<And>c. Inr c \<in> set rs \<Longrightarrow> \<forall>e\<in>set (effects c). well_formed np npl e"
  shows "wf_choices np npl cs"
  using collect_Inr [OF assms(1)] assms(2) by (auto simp: wf_choices_def)

lemma wf_simple:
  assumes "state_ok np npl s" and "actor < np"
  shows "wf_choices np npl (ImmunityProcedure_generate_choices s actor)"
    "wf_choices np npl (ActionChoices_generate_choices s actor)"
    "wf_choices np npl (TreasureChoices_generate_choices s actor)"
    "wf_choices np npl (CellarChoices_generate_heuristic_choices s actor)"
    "wf_choices np npl (MilitiaVictimProcedure_generate_choices s actor)"
    "wf_choices np npl (ChapelChoices_generate_choices s actor)"
    "wf_choices np npl (HarbingerChoices_generate_choices s actor)"
    "wf_choices np npl (MoneylenderChoices_generate_choices s actor)"
    "wf_choices np npl (PoacherProcedure_generate_choices s actor)"
    "wf_choices np npl (PoacherChoices_generate_choices s actor)"
    "wf_choices np npl (ThroneRoomChoices_generate_choices s actor)"
    "wf_choices np npl (CouncilRoomProcedure_generate_choices s actor)"
    "wf_choices np npl (LibraryTeardown_generate_choices s actor)"
    "wf_choices np npl (LibraryChoices_generate_choices s actor)"
    "wf_choices np npl (fst (VassalChoices_generate_choices sh s actor))"
    "wf_choices np npl (fst (LibraryProcedure_generate_choices sh s actor))"
  using assms
  by (auto simp: ImmunityProcedure_generate_choices_def ActionChoices_generate_choices_def
        TreasureChoices_generate_choices_def CellarChoices_generate_heuristic_choices_def
        MilitiaVictimProcedure_generate_choices_def ChapelChoices_generate_choices_def
        HarbingerChoices_generate_choices_def MoneylenderChoices_generate_choices_def
        PoacherProcedure_generate_choices_def PoacherChoices_generate_choices_def
        ThroneRoomChoices_generate_choices_def CouncilRoomProcedure_generate_choices_def
        LibraryTeardown_generate_choices_def LibraryChoices_generate_choices_def
        VassalChoices_generate_choices_def LibraryProcedure_generate_choices_def
        Let_def wf_choices_def split: list.splits)

lemma wf_opponents:
  assumes "state_ok np npl s" and "actor < np"
  shows "wf_choices np npl (MilitiaChoices_generate_choices s actor)"
    "wf_choices np npl (CouncilRoomChoices_generate_choices s actor)"
    "wf_choices np npl (WitchChoices_generate_choices s actor)"
  using assms opponents_lt [OF assms(1)]
  by (auto simp: MilitiaChoices_generate_choices_def CouncilRoomChoices_generate_choices_def
        WitchChoices_generate_choices_def effects_foldl_add)


lemma wf_BuyChoices:
  assumes "actor < np" and "BuyChoices_generate_choices s actor = Inr cs"
  shows "wf_choices np npl cs"
  using assms
  by (auto simp: BuyChoices_eq wf_choices_def split: if_splits)

lemma wf_MineChoices:
  assumes "actor < np" and "MineChoices_generate_choices s actor = Inr cs"
  shows "wf_choices np npl cs"
proof -
  from assms(2) obtain more where
    c: "collect (concat (map (\<lambda>trashable.
              (let max_cost = cost trashable + 3;
                   gainables = filter_supply (\<lambda>x. is_treasure x \<and> cost x \<le> max_cost) s
               in if gainables \<noteq> [] then
                    map (\<lambda>gainable. DependentAcquisition
                           [Effect_trash actor trashable None, Effect_gain actor gainable None])
                      gainables
                  else [Inr (Consequence [Effect_trash actor trashable None] None)]))
              (get_pieces (get_zone (Hand actor) s) True (Some is_treasure)))) = Inr more"
    and cs: "cs = [NullOption actor None] @ more"
    by (auto simp: MineChoices_generate_choices_def and_then_def Let_def split: sum.splits)
  have "wf_choices np npl more"
    by (rule wf_collect [OF c])
       (use assms(1) in \<open>auto simp: Let_def dest!: DependentAcquisition_effects [OF sym] split: if_splits\<close>)
  then show ?thesis using assms(1) by (simp add: cs)
qed

lemma wf_RemodelChoices:
  assumes "actor < np" and "RemodelChoices_generate_choices s actor = Inr cs"
  shows "wf_choices np npl cs"
proof (cases "get_pieces (get_zone (Hand actor) s) True None = []")
  case True
  then show ?thesis using assms by (auto simp: RemodelChoices_generate_choices_def)
next
  case False
  then have c: "collect (concat (map (\<lambda>trashable.
             (let gainables = filter_supply (\<lambda>x. cost x \<le> cost trashable + 2) s
              in if gainables \<noteq> [] then
                   map (\<lambda>gainable. DependentAcquisition
                          [Effect_trash actor trashable None, Effect_gain actor gainable None])
                     gainables
                 else [Inr (Consequence [Effect_trash actor trashable None] None)]))
             (get_pieces (get_zone (Hand actor) s) True None))) = Inr cs"
    using assms(2) by (simp add: RemodelChoices_generate_choices_def Let_def)
  show ?thesis
    by (rule wf_collect [OF c])
       (use assms(1) in \<open>auto simp: Let_def dest!: DependentAcquisition_effects [OF sym] split: if_splits\<close>)
qed

lemma wf_WorkshopChoices:
  assumes "actor < np" and "WorkshopChoices_generate_choices s actor = Inr cs"
  shows "wf_choices np npl cs"
proof (cases "filter_supply (\<lambda>x. cost x \<le> 4) s = []")
  case True
  then show ?thesis using assms by (auto simp: WorkshopChoices_generate_choices_def)
next
  case False
  then have c: "collect (map (\<lambda>gainable. Acquisition [Effect_gain actor gainable None])
                  (filter_supply (\<lambda>x. cost x \<le> 4) s)) = Inr cs"
    using assms(2) by (simp add: WorkshopChoices_generate_choices_def Let_def)
  show ?thesis
    by (rule wf_collect [OF c])
       (use assms(1) in \<open>auto dest!: Acquisition_effects [OF sym]\<close>)
qed

lemma keyed_snd:
  "Inr kc \<in> set (map (\<lambda>c. case effects c of
                                 [Effect_discard_pieces a (p # ps) src, Effect_draw b n] \<Rightarrow>
                                   Inr ((n, name p), c)
                               | _ \<Rightarrow> Inl IndexError) chs) \<Longrightarrow> snd kc \<in> set chs"
  by (auto split: list.splits effect.splits)

lemma wf_CellarChoices:
  assumes "actor < np" and "state_ok np npl s" and "CellarChoices_generate_choices s actor = Inr cs"
  shows "wf_choices np npl cs"
proof (cases "actor_repr (players s ! actor) = ''You''")
  case False
  then show ?thesis
    using assms(3) wf_simple(4) [OF assms(2,1)] assms(1)
    by (auto simp: CellarChoices_generate_choices_def)
next
  case True
  let ?choices = "(if get_zone (Hand actor) s \<noteq> [] then
               map (\<lambda>combo. (let combo1 = sort_key name combo
                              in Consequence [Effect_discard_pieces actor combo1 None,
                                              Effect_draw actor (int (length combo1))] None))
                 (get_piece_combinations (get_zone (Hand actor) s) 1 None)
             else [])"
  from True assms(3) obtain more where
    h: "CellarChoices_generate_human_choices s actor = Inr more"
    and cs: "cs = [NullOption actor None] @ more"
    by (auto simp: CellarChoices_generate_choices_def and_then_def split: sum.splits)
  from h obtain keyed where
    k: "collect (map (\<lambda>c. case effects c of
                                 [Effect_discard_pieces a (p # ps) src, Effect_draw b n] \<Rightarrow>
                                   Inr ((n, name p), c)
                               | _ \<Rightarrow> Inl IndexError) ?choices) = Inr keyed"
    and m: "more = map snd (sort_key fst keyed)"
    by (auto simp: CellarChoices_generate_human_choices_def and_then_def Let_def split: sum.splits)
  have w: "wf_choices np npl ?choices"
    using assms(1) by (auto simp: wf_choices_def Let_def)
  have "\<forall>kc\<in>set keyed. snd kc \<in> set ?choices"
  proof
    fix kc assume "kc \<in> set keyed"
    from collect_Inr [OF k this]
    show "snd kc \<in> set ?choices"
      by (rule keyed_snd)
  qed
  then have "wf_choices np npl more"
    using w unfolding m by (auto simp: wf_choices_def)
  then show ?thesis using assms(1) by (simp add: cs)
qed

lemma wf_BureaucratChoices:
  assumes "actor < np" and "state_ok np npl s" and "BureaucratChoices_generate_choices s actor = Inr cs"
  shows "wf_choices np npl cs"
  using assms opponents_lt [OF assms(2)]
  by (auto simp: BureaucratChoices_generate_choices_def and_then_def Let_def effects_foldl_add
      dest!: Acquisition_effects split: sum.splits if_splits)

lemma wf_BanditChoices:
  assumes "actor < np" and "state_ok np npl s" and "BanditChoices_generate_choices s actor = Inr cs"
  shows "wf_choices np npl cs"
  using assms opponents_lt [OF assms(2)]
  by (auto simp: BanditChoices_generate_choices_def and_then_def Let_def effects_foldl_add
      dest!: Acquisition_effects split: sum.splits if_splits)

lemma wf_BanditProcedure:
  assumes "actor < np" and "BanditProcedure_generate_choices sh s actor = Inr (cs, s1)"
  shows "wf_choices np npl cs"
  using assms
  by (auto simp: BanditProcedure_generate_choices_def Let_def partition_items_def
      split: if_splits list.splits)

lemma wf_SentryChoices:
  assumes "actor < np" and "SentryChoices_generate_choices sh s actor = Inr (cs, s1)"
  shows "wf_choices np npl cs"
  using assms
  by (auto simp: SentryChoices_generate_choices_def Let_def split: if_splits)

lemma expand_choices_wf:
  assumes "state_ok np npl s" and "actor < np"
    and "expand_choices sh s actor d = Inr (cs, s1)"
  shows "wf_choices np npl cs"
proof (cases d)
  case Decision
  then show ?thesis using assms(3) by (auto simp: expand_choices_def)
next
  case ImmunityProcedure
  then show ?thesis using assms(3) wf_simple [OF assms(1,2)] by (auto simp: expand_choices_def)
next
  case ActionChoices
  then show ?thesis using assms(3) wf_simple [OF assms(1,2)] by (auto simp: expand_choices_def)
next
  case TreasureChoices
  then show ?thesis using assms(3) wf_simple [OF assms(1,2)] by (auto simp: expand_choices_def)
next
  case BuyChoices
  then show ?thesis using assms(3) wf_BuyChoices [OF assms(2)]
    by (auto simp: expand_choices_def and_then_def split: sum.splits)
next
  case MineChoices
  then show ?thesis using assms(3) wf_MineChoices [OF assms(2)]
    by (auto simp: expand_choices_def and_then_def split: sum.splits)
next
  case CellarChoices
  then show ?thesis using assms(3) wf_CellarChoices [OF assms(2,1)]
    by (auto simp: expand_choices_def and_then_def split: sum.splits)
next
  case RemodelChoices
  then show ?thesis using assms(3) wf_RemodelChoices [OF assms(2)]
    by (auto simp: expand_choices_def and_then_def split: sum.splits)
next
  case MilitiaVictimProcedure
  then show ?thesis using assms(3) wf_simple [OF assms(1,2)] by (auto simp: expand_choices_def)
next
  case MilitiaChoices
  then show ?thesis using assms(3) wf_opponents [OF assms(1,2)] by (auto simp: expand_choices_def)
next
  case WorkshopChoices
  then show ?thesis using assms(3) wf_WorkshopChoices [OF assms(2)]
    by (auto simp: expand_choices_def and_then_def split: sum.splits)
next
  case ChapelChoices
  then show ?thesis using assms(3) wf_simple [OF assms(1,2)] by (auto simp: expand_choices_def)
next
  case HarbingerChoices
  then show ?thesis using assms(3) wf_simple [OF assms(1,2)] by (auto simp: expand_choices_def)
next
  case VassalChoices
  then show ?thesis using assms(3) wf_simple(15) [OF assms(1,2), of sh]
    by (auto simp: expand_choices_def)
next
  case BureaucratProcedure
  then show ?thesis using assms(3)
    by (auto simp: expand_choices_def and_then_def BureaucratProcedure_generate_choices_def Let_def
        split: sum.splits if_splits)
next
  case BureaucratProcedure_class
  then show ?thesis using assms(3) by (auto simp: expand_choices_def)
next
  case BureaucratChoices
  then show ?thesis using assms(3) wf_BureaucratChoices [OF assms(2,1)]
    by (auto simp: expand_choices_def and_then_def split: sum.splits)
next
  case MoneylenderChoices
  then show ?thesis using assms(3) wf_simple [OF assms(1,2)] by (auto simp: expand_choices_def)
next
  case PoacherProcedure
  then show ?thesis using assms(3) wf_simple [OF assms(1,2)] by (auto simp: expand_choices_def)
next
  case PoacherChoices
  then show ?thesis using assms(3) wf_simple [OF assms(1,2)] by (auto simp: expand_choices_def)
next
  case ThroneRoomChoices
  then show ?thesis using assms(3) wf_simple [OF assms(1,2)] by (auto simp: expand_choices_def)
next
  case BanditProcedure
  then show ?thesis using assms(3) wf_BanditProcedure [OF assms(2)]
    by (auto simp: expand_choices_def)
next
  case BanditChoices
  then show ?thesis using assms(3) wf_BanditChoices [OF assms(2,1)]
    by (auto simp: expand_choices_def and_then_def split: sum.splits)
next
  case CouncilRoomProcedure
  then show ?thesis using assms(3) wf_simple [OF assms(1,2)] by (auto simp: expand_choices_def)
next
  case CouncilRoomChoices
  then show ?thesis using assms(3) wf_opponents [OF assms(1,2)] by (auto simp: expand_choices_def)
next
  case LibraryProcedure
  then show ?thesis using assms(3) wf_simple(16) [OF assms(1,2), of sh]
    by (auto simp: expand_choices_def)
next
  case LibraryTeardown
  then show ?thesis using assms(3) wf_simple [OF assms(1,2)] by (auto simp: expand_choices_def)
next
  case LibraryChoices
  then show ?thesis using assms(3) wf_simple [OF assms(1,2)] by (auto simp: expand_choices_def)
next
  case SentryChoices
  then show ?thesis using assms(3) wf_SentryChoices [OF assms(2)]
    by (auto simp: expand_choices_def)
next
  case WitchProcedure
  then show ?thesis using assms(3)
    by (auto simp: expand_choices_def and_then_def WitchProcedure_generate_choices_def Let_def
        split: sum.splits if_splits)
next
  case WitchChoices
  then show ?thesis using assms(3) wf_opponents [OF assms(1,2)] by (auto simp: expand_choices_def)
next
  case ArtisanChoices
  then show ?thesis using assms(3)
    by (auto simp: expand_choices_def and_then_def ArtisanChoices_generate_choices_def Let_def
        split: sum.splits)
qed

lemma run_bind_Inr:
  "run_bind r f = Some (Inr y) \<Longrightarrow> \<exists>x. r = Some (Inr x) \<and> f x = Some (Inr y)"
  by (auto simp: run_bind_def split: option.splits sum.splits)

lemma setup_effect_ok:
  "process_actor p < np \<Longrightarrow> setup_effect p = Some e \<Longrightarrow> well_formed np npl e"
  by (cases p) auto

lemma teardown_effect_ok:
  "process_actor p < np \<Longrightarrow> teardown_effect p = Some e \<Longrightarrow> well_formed np npl e"
  by (cases p) auto

lemma main_effect_ok:
  "process_actor p < np \<Longrightarrow> well_formed np npl (main_effect p)"
  by (cases p) auto

lemma request_input_conserves:
  assumes "env_ok np npl E" and "state_ok np npl s" and "actor < np"
    and "request_input E s actor d decider = Inr (c, s1)"
  shows "state_ok np npl s1 \<and> all_pieces s1 = all_pieces s \<and> (\<forall>e\<in>set (effects c). well_formed np npl e)"
proof -
  from assms(4) obtain cs where
    x: "expand_choices (shuffle E) s actor d = Inr (cs, s1)"
    and sel: "select E decider s1 cs d = Inr c"
    by (auto simp: request_input_def and_then_def split: sum.splits)
  from assms(1) have sh: "\<forall>xs. mset (shuffle E xs) = mset xs" by (simp add: env_ok_def)
  from assms(1) sel have "c \<in> set cs" by (auto simp: env_ok_def)
  with expand_choices_wf [OF assms(2,3) x] have "\<forall>e\<in>set (effects c). well_formed np npl e"
    by (simp add: wf_choices_def)
  with expand_choices_state [OF assms(2,3) sh x] show ?thesis by simp
qed

lemma exec_conserves:
  assumes E: "env_ok np npl E"
  shows "call_ok np npl c \<Longrightarrow> state_ok np npl (fst st) \<Longrightarrow> exec n E c st = Some (Inr st1)
         \<Longrightarrow> state_ok np npl (fst st1) \<and> all_pieces (fst st1) = all_pieces (fst st)"
proof (induction n arbitrary: c st st1)
  case 0
  then show ?case by simp
next
  case (Suc n)
  note IH = Suc.IH
  note ok = Suc.prems(1) and sok = Suc.prems(2) and ex = Suc.prems(3)
  from E have sh: "\<forall>xs. mset (shuffle E xs) = mset xs" by (simp add: env_ok_def)
  show ?case
  proof (cases c)
    case (Call_enact effs)
    show ?thesis
    proof (cases effs)
      case Nil
      with Call_enact ex sok show ?thesis by auto
    next
      case (Cons e es)
      with Call_enact ex obtain st2 where
        a: "exec n E (Call_effect e) st = Some (Inr st2)"
        and b: "exec n E (Call_enact es) st2 = Some (Inr st1)"
        by (auto dest!: run_bind_Inr)
      from ok Call_enact Cons have o1: "call_ok np npl (Call_effect e)"
        and o2: "call_ok np npl (Call_enact es)" by (simp_all add: call_ok_def)
      from IH [OF o1 sok a] have c1: "state_ok np npl (fst st2)" "all_pieces (fst st2) = all_pieces (fst st)"
        by simp_all
      from IH [OF o2 c1(1) b] c1(2) show ?thesis by simp
    qed
  next
    case (Call_effect e)
    from ok Call_effect have wf: "well_formed np npl e" by (simp add: call_ok_def)
    have "(\<exists>c1. call_ok np npl c1 \<and> exec n E c1 st = Some (Inr st1))
          \<or> (\<exists>s1. apply_function E e (fst st) = Inr s1 \<and> st1 = (s1, snd st))
          \<or> st1 = (fst st, True)
          \<or> (\<exists>p st2. process_actor p < np \<and> exec n E (Call_Process p) st = Some (Inr st2)
                \<and> st1 = (fst st2, snd st))"
      using ex wf Call_effect
      by (cases e) (auto simp: call_ok_def dest!: run_bind_Inr)
    then show ?thesis
    proof (elim disjE exE conjE)
      fix c1 assume "call_ok np npl c1" "exec n E c1 st = Some (Inr st1)"
      then show ?thesis using IH sok by blast
    next
      fix s1 assume a: "apply_function E e (fst st) = Inr s1" and b: "st1 = (s1, snd st)"
      from apply_function_conserves [OF sok wf sh a] b show ?thesis by simp
    next
      assume "st1 = (fst st, True)"
      then show ?thesis using sok by simp
    next
      fix p st2 assume p: "process_actor p < np"
        and a: "exec n E (Call_Process p) st = Some (Inr st2)" and b: "st1 = (fst st2, snd st)"
      from p have o: "call_ok np npl (Call_Process p)" by (simp add: call_ok_def)
      from IH [OF o sok a] b show ?thesis by simp
    qed
  next
    case (Call_resolve actor d decider)
    from ok Call_resolve have a: "actor < np" by (simp add: call_ok_def)
    from ex Call_resolve obtain cs where
      r: "request_input E (fst st) actor d (case decider of None \<Rightarrow> actor | Some x \<Rightarrow> x) = Inr cs"
      and b: "exec n E (Call_enact (effects (fst cs))) (snd cs, snd st) = Some (Inr st1)"
      by (auto dest!: run_bind_Inr)
    from request_input_conserves [OF E sok a, of d _ "fst cs" "snd cs"] r
    have c1: "state_ok np npl (snd cs)" "all_pieces (snd cs) = all_pieces (fst st)"
      "\<forall>e\<in>set (effects (fst cs)). well_formed np npl e" by simp_all
    from c1(3) have o: "call_ok np npl (Call_enact (effects (fst cs)))" by (simp add: call_ok_def)
    from IH [OF o _ b] c1(1,2) show ?thesis by simp
  next
    case (Call_resolve_effects actor pc)
    from ok Call_resolve_effects have a: "actor < np" by (simp add: call_ok_def)
    from ex Call_resolve_effects obtain st2 where
      x: "(case simple_effects E pc of None \<Rightarrow> Some (Inr st)
            | Some effs \<Rightarrow> exec n E (Call_enact effs) st) = Some (Inr st2)"
      and y: "(case piece_decision E pc of None \<Rightarrow> Some (Inr st2)
            | Some d \<Rightarrow> exec n E (Call_resolve actor d None) st2) = Some (Inr st1)"
      by (auto dest!: run_bind_Inr)
    have c1: "state_ok np npl (fst st2) \<and> all_pieces (fst st2) = all_pieces (fst st)"
    proof (cases "simple_effects E pc")
      case None
      with x sok show ?thesis by simp
    next
      case (Some effs)
      with E have "\<forall>e\<in>set effs. well_formed np npl e" by (auto simp: env_ok_def list_all_iff)
      then have o: "call_ok np npl (Call_enact effs)" by (simp add: call_ok_def)
      from x Some have "exec n E (Call_enact effs) st = Some (Inr st2)" by simp
      from IH [OF o sok this] show ?thesis .
    qed
    show ?thesis
    proof (cases "piece_decision E pc")
      case None
      with y c1 show ?thesis by simp
    next
      case (Some d)
      from a have o: "call_ok np npl (Call_resolve actor d None)" by (simp add: call_ok_def)
      from y Some have "exec n E (Call_resolve actor d None) st2 = Some (Inr st1)" by simp
      from IH [OF o _ this] c1 show ?thesis by simp
    qed
  next
    case (Call_play_piece actor pc source free)
    from ok Call_play_piece have a: "actor < np" and z: "zone_opt_ok np npl source"
      by (simp_all add: call_ok_def)
    let ?s0 = "if \<not> free then (fst st)\<lparr>n_action := n_action (fst st) - 1\<rparr> else fst st"
    from ex Call_play_piece obtain s2 where
      t: "transfer_piece (piece_eq E) pc (Play actor)
            (case source of None \<Rightarrow> Hand actor | Some z \<Rightarrow> z) ?s0 = Inr s2"
      and b: "exec n E (Call_resolve_effects actor pc) (s2, snd st) = Some (Inr st1)"
      by (auto simp: Let_def dest!: run_bind_Inr)
    have s0: "state_ok np npl ?s0" "all_pieces ?s0 = all_pieces (fst st)" using sok by simp_all
    have zs: "zone_ok np npl (case source of None \<Rightarrow> Hand actor | Some z \<Rightarrow> z)"
      by (rule zone_default_ok) (simp_all add: a z)
    from transfer_piece_conserves [OF s0(1) _ zs t] a s0(2)
    have c1: "state_ok np npl s2" "all_pieces s2 = all_pieces (fst st)" by simp_all
    from a have o: "call_ok np npl (Call_resolve_effects actor pc)" by (simp add: call_ok_def)
    from IH [OF o _ b] c1 show ?thesis by simp
  next
    case (Call_play_treasures actor pieces)
    from ok Call_play_treasures have a: "actor < np" by (simp add: call_ok_def)
    show ?thesis
    proof (cases pieces)
      case Nil
      with Call_play_treasures ex sok show ?thesis by (auto simp: end_phase_def)
    next
      case (Cons pc rest)
      with Call_play_treasures ex obtain s1 st2 where
        t: "transfer_piece (piece_eq E) pc (Play actor) (Hand actor) (fst st) = Inr s1"
        and b: "exec n E (Call_resolve_effects actor pc) (s1, snd st) = Some (Inr st2)"
        and c: "exec n E (Call_play_treasures actor rest) st2 = Some (Inr st1)"
        by (auto dest!: run_bind_Inr)
      from transfer_piece_conserves [OF sok _ _ t] a
      have c1: "state_ok np npl s1" "all_pieces s1 = all_pieces (fst st)" by simp_all
      from a have o1: "call_ok np npl (Call_resolve_effects actor pc)"
        and o2: "call_ok np npl (Call_play_treasures actor rest)" by (simp_all add: call_ok_def)
      from IH [OF o1 _ b] c1
      have c2: "state_ok np npl (fst st2)" "all_pieces (fst st2) = all_pieces (fst st)" by simp_all
      from IH [OF o2 c2(1) c] c2(2) show ?thesis by simp
    qed
  next
    case (Call_Process p)
    from ok Call_Process have a: "process_actor p < np" by (simp add: call_ok_def)
    from ex Call_Process obtain st2 st3 st4 where
      x: "(case setup_effect p of None \<Rightarrow> Some (Inr (fst st, False))
            | Some e \<Rightarrow> exec n E (Call_effect e) (fst st, False)) = Some (Inr st2)"
      and y: "exec n E (Call_while p) st2 = Some (Inr st3)"
      and z: "(case teardown_effect p of None \<Rightarrow> Some (Inr st3)
            | Some e \<Rightarrow> exec n E (Call_effect e) st3) = Some (Inr st4)"
      and r: "st1 = (fst st4, clear_internal_state p (snd st4))"
      by (auto dest!: run_bind_Inr)
    have c1: "state_ok np npl (fst st2) \<and> all_pieces (fst st2) = all_pieces (fst st)"
    proof (cases "setup_effect p")
      case None
      with x sok show ?thesis by auto
    next
      case (Some e)
      from setup_effect_ok [OF a Some] have o: "call_ok np npl (Call_effect e)"
        by (simp add: call_ok_def)
      from x Some have "exec n E (Call_effect e) (fst st, False) = Some (Inr st2)" by simp
      from IH [OF o _ this] sok show ?thesis by simp
    qed
    from a have ow: "call_ok np npl (Call_while p)" by (simp add: call_ok_def)
    from IH [OF ow _ y] c1
    have c2: "state_ok np npl (fst st3)" "all_pieces (fst st3) = all_pieces (fst st)" by simp_all
    have c3: "state_ok np npl (fst st4) \<and> all_pieces (fst st4) = all_pieces (fst st)"
    proof (cases "teardown_effect p")
      case None
      with z c2 show ?thesis by auto
    next
      case (Some e)
      from teardown_effect_ok [OF a Some] have o: "call_ok np npl (Call_effect e)"
        by (simp add: call_ok_def)
      from z Some have "exec n E (Call_effect e) st3 = Some (Inr st4)" by simp
      from IH [OF o c2(1) this] c2(2) show ?thesis by simp
    qed
    with r show ?thesis by simp
  next
    case (Call_while p)
    from ok Call_while have a: "process_actor p < np" by (simp add: call_ok_def)
    show ?thesis
    proof (cases "antecedent p (snd st) (fst st)")
      case False
      with Call_while ex sok show ?thesis by auto
    next
      case True
      with Call_while ex obtain st2 where
        x: "exec n E (Call_effect (main_effect p)) st = Some (Inr st2)"
        and y: "exec n E (Call_while p) st2 = Some (Inr st1)"
        by (auto dest!: run_bind_Inr)
      from main_effect_ok [OF a] have o: "call_ok np npl (Call_effect (main_effect p))"
        by (simp add: call_ok_def)
      from IH [OF o sok x]
      have c1: "state_ok np npl (fst st2)" "all_pieces (fst st2) = all_pieces (fst st)" by simp_all
      from ok Call_while have ow: "call_ok np npl (Call_while p)" by simp
      from IH [OF ow c1(1) y] c1(2) show ?thesis by simp
    qed
  qed
qed

text \<open>
  Claim C2.  Take a game of \<open>np\<close> players and \<open>npl\<close> piles, a shuffle that permutes,
  a card catalogue whose Effects are well-formed and deciders that select one of the
  choices offered.  Then enacting any list of well-formed Effects or Processes (a
  Consequence), resolving any Decision for an actor of the game, and playing any Piece,
  whenever it returns, leaves the multiset of Piece instances over all players' zones, the
  Supply piles and the trash as it was; so does \<open>replenish_deck\<close>.  Every zone-transfer
  Effect is covered: draw, gain, buy, trash, discard, topdeck, put, set aside, play.
\<close>

theorem conservation:
  assumes "env_ok np npl E" and "state_ok np npl s"
  shows "(\<forall>effs n f s1 f1. (\<forall>e\<in>set effs. well_formed np npl e) \<longrightarrow>
            enact n E effs (s, f) = Some (Inr (s1, f1)) \<longrightarrow> all_pieces s1 = all_pieces s)
       \<and> (\<forall>actor d decider n f s1 f1. actor < np \<longrightarrow>
            resolve n E actor d decider (s, f) = Some (Inr (s1, f1)) \<longrightarrow> all_pieces s1 = all_pieces s)
       \<and> (\<forall>actor pc source free n f s1 f1. actor < np \<longrightarrow> zone_opt_ok np npl source \<longrightarrow>
            play_piece n E actor pc source free (s, f) = Some (Inr (s1, f1)) \<longrightarrow>
            all_pieces s1 = all_pieces s)
       \<and> (\<forall>actor<np. all_pieces (replenish_deck (shuffle E) actor s) = all_pieces s)"
proof (intro conjI allI impI)
  fix effs n f s1 f1
  assume "\<forall>e\<in>set effs. well_formed np npl e" and r: "enact n E effs (s, f) = Some (Inr (s1, f1))"
  then have o: "call_ok np npl (Call_enact effs)" by (simp add: call_ok_def)
  from exec_conserves [OF assms(1) o, of "(s, f)" n "(s1, f1)"] assms(2) r
  show "all_pieces s1 = all_pieces s" by (simp add: enact_def)
next
  fix actor d decider n f s1 f1
  assume "actor < np" and r: "resolve n E actor d decider (s, f) = Some (Inr (s1, f1))"
  then have o: "call_ok np npl (Call_resolve actor d decider)" by (simp add: call_ok_def)
  from exec_conserves [OF assms(1) o, of "(s, f)" n "(s1, f1)"] assms(2) r
  show "all_pieces s1 = all_pieces s" by (simp add: resolve_def)
next
  fix actor pc source free n f s1 f1
  assume "actor < np" and "zone_opt_ok np npl source"
    and r: "play_piece n E actor pc source free (s, f) = Some (Inr (s1, f1))"
  then have o: "call_ok np npl (Call_play_piece actor pc source free)" by (simp add: call_ok_def)
  from exec_conserves [OF assms(1) o, of "(s, f)" n "(s1, f1)"] assms(2) r
  show "all_pieces s1 = all_pieces s" by (simp add: play_piece_def)
next
  fix actor assume a: "actor < np"
  from assms(1) have sh: "\<forall>xs. mset (shuffle E xs) = mset xs" by (simp add: env_ok_def)
  from replenish_deck_conserves [OF assms(2) a sh]
  show "all_pieces (replenish_deck (shuffle E) actor s) = all_pieces s" by simp
qed

theorem conservation_witness:
  "enact 2 ex_env [Effect_buy_piece 0 (Province 9)] (ex_buy, False) =
     Some (Inr ((mk_state [mk_player [] [] [Copper 1, Province 9]] [[], [], [], []])
        \<lparr>n_buy := 0, n_coin := 0, n_empty_piles := 1, province_pile_empty := True\<rparr>, False))
   \<and> all_pieces ((mk_state [mk_player [] [] [Copper 1, Province 9]] [[], [], [], []])
        \<lparr>n_buy := 0, n_coin := 0, n_empty_piles := 1, province_pile_empty := True\<rparr>)
       = all_pieces ex_buy"
proof -
  have E: "env_ok 1 4 ex_env"
    by (simp add: env_ok_def ex_env_def)
  have S: "state_ok 1 4 ex_buy"
    by (simp add: state_ok_def ex_buy_def mk_state_def)
  have W: "\<forall>e\<in>set [Effect_buy_piece 0 (Province 9)]. well_formed 1 4 e"
    by simp
  have 1: "0 < length (players ex_buy)" "total_order_index (Province 9) < 4"
      "piles ex_buy = (replicate 4 [])[total_order_index (Province 9) := [Province 9]]"
      "is_province (Province 9)"
    by (simp_all add: ex_buy_def mk_state_def Province_def mk_piece_def numeral_eq_Suc)
  have R: "enact 2 ex_env [Effect_buy_piece 0 (Province 9)] (ex_buy, False) =
     Some (Inr ((mk_state [mk_player [] [] [Copper 1, Province 9]] [[], [], [], []])
        \<lparr>n_buy := 0, n_coin := 0, n_empty_piles := 1, province_pile_empty := True\<rparr>, False))"
    using buy_piece_single_pile [OF 1, of 0 ex_env False]
    by (simp add: numeral_2_eq_2)
       (simp add: ex_buy_def mk_state_def mk_player_def Province_def mk_piece_def numeral_eq_Suc)
  let ?after = "(mk_state [mk_player [] [] [Copper 1, Province 9]] [[], [], [], []])
        \<lparr>n_buy := 0, n_coin := 0, n_empty_piles := 1, province_pile_empty := True\<rparr>"
  have A: "\<forall>effs n f s1 f1. (\<forall>e\<in>set effs. well_formed 1 4 e) \<longrightarrow>
            enact n ex_env effs (ex_buy, f) = Some (Inr (s1, f1)) \<longrightarrow>
            all_pieces s1 = all_pieces ex_buy"
    by (rule conservation [OF E S, THEN conjunct1])
  have B: "(\<forall>e\<in>set [Effect_buy_piece 0 (Province 9)]. well_formed 1 4 e) \<longrightarrow>
        enact 2 ex_env [Effect_buy_piece 0 (Province 9)] (ex_buy, False) = Some (Inr (?after, False)) \<longrightarrow>
        all_pieces ?after = all_pieces ex_buy"
    by (rule A [THEN spec, THEN spec, THEN spec, THEN spec, THEN spec])
  have C: "enact 2 ex_env [Effect_buy_piece 0 (Province 9)] (ex_buy, False) = Some (Inr (?after, False)) \<longrightarrow>
        all_pieces ?after = all_pieces ex_buy"
    by (rule mp [OF B W])
  have D: "all_pieces ?after = all_pieces ex_buy"
    by (rule mp [OF C R])
  show ?thesis
    by (rule conjI [OF R D])
qed

end
